theory Spec2Isabelle
  imports Main "HOL-Library.Option_ord" "HOL-Library.Multiset"
begin

section \<open>Data model (src/models/task.py, src/models/user.py)\<close>

text \<open>
  The service layer of the task tracker reads and writes two SQLite tables through
  SQLAlchemy. A table is modelled as the list of its rows in storage order, a row as a
  record with one field per \<^verbatim>\<open>Column\<close>. A column declared \<^verbatim>\<open>nullable=False\<close> (or the
  primary key) has the plain type; every other column is nullable and has an option
  type, \<open>None\<close> being SQL NULL. A \<^verbatim>\<open>DateTime\<close> is an integer timestamp.
\<close>

type_synonym datetime = int

datatype TaskStatus = PENDING | IN_PROGRESS | COMPLETED | CANCELLED

text \<open>\<^verbatim>\<open>class TaskStatus(str, enum.Enum)\<close>: the string value of each member.\<close>

fun status_value :: "TaskStatus \<Rightarrow> string" where
  "status_value PENDING = ''pending''"
| "status_value IN_PROGRESS = ''in_progress''"
| "status_value COMPLETED = ''completed''"
| "status_value CANCELLED = ''cancelled''"

text \<open>Iterating over the enumeration class yields the members in definition order.\<close>

definition all_statuses :: "TaskStatus list" where
  "all_statuses = [PENDING, IN_PROGRESS, COMPLETED, CANCELLED]"

text \<open>
  An enumeration mixed with \<^verbatim>\<open>str\<close> is truthy by the rule of \<^verbatim>\<open>str\<close>: exactly when its
  value is not the empty string. This is what \<^verbatim>\<open>if status_filter:\<close> tests.
\<close>

definition status_truthy :: "TaskStatus \<Rightarrow> bool" where
  "status_truthy s = (status_value s \<noteq> [])"

text \<open>Table \<^verbatim>\<open>tasks\<close>; \<open>task_id\<close> is the column \<^verbatim>\<open>id\<close>.\<close>

record Task =
  task_id :: int
  title :: string
  description :: "string option"
  status :: TaskStatus
  priority :: "int option"
  owner_id :: int
  created_at :: "datetime option"
  updated_at :: "datetime option"
  due_date :: "datetime option"

text \<open>
  Table \<^verbatim>\<open>users\<close>; \<open>user_id\<close>, \<open>user_created_at\<close> and \<open>user_updated_at\<close> are the columns
  \<^verbatim>\<open>id\<close>, \<^verbatim>\<open>created_at\<close> and \<^verbatim>\<open>updated_at\<close>.
\<close>

record User =
  user_id :: int
  email :: string
  username :: string
  hashed_password :: string
  full_name :: "string option"
  is_active :: "bool option"
  is_superuser :: "bool option"
  user_created_at :: "datetime option"
  user_updated_at :: "datetime option"

text \<open>The database behind a \<^verbatim>\<open>Session\<close>: the two tables.\<close>

record database =
  users :: "User list"
  tasks :: "Task list"

text \<open>
  Failures that the storage layer and the password library raise through the services:
  a violated NOT NULL or UNIQUE constraint at commit, a \<^verbatim>\<open>refresh\<close> of a row that is
  gone, an integer query parameter that does not fit an SQLite INTEGER, and a stored
  digest that the password context cannot identify.
\<close>

datatype error = IntegrityError | InvalidRequestError | OverflowError | UnknownHashError

section \<open>Request schemas (src/api/schemas.py)\<close>

text \<open>
  \<^verbatim>\<open>TaskCreate\<close> and \<^verbatim>\<open>UserCreate\<close> after validation. \<^verbatim>\<open>priority\<close> is an \<^verbatim>\<open>int\<close> with
  default 1, so a validated object always carries a number. Neither schema declares a
  \<^verbatim>\<open>status\<close> field, and the default model configuration ignores undeclared keys.
\<close>

record TaskCreate =
  new_title :: string
  new_description :: "string option"
  new_priority :: int
  new_due_date :: "datetime option"

record UserCreate =
  reg_email :: string
  reg_username :: string
  reg_full_name :: "string option"
  reg_password :: string

text \<open>
  A field of an update schema is declared \<^verbatim>\<open>Optional[...] = None\<close>. What
  \<^verbatim>\<open>.dict(exclude_unset=True)\<close> keeps is decided by whether the request supplied the
  key, not by its value: a key supplied as \<^verbatim>\<open>null\<close> is kept, with value \<^verbatim>\<open>None\<close>.
  \<open>Unset\<close> is a key the request did not supply, \<open>Given v\<close> a supplied one.
\<close>

datatype 'a field = Unset | Given 'a

record TaskUpdate =
  upd_title :: "string option field"
  upd_description :: "string option field"
  upd_status :: "TaskStatus option field"
  upd_priority :: "int option field"
  upd_due_date :: "datetime option field"

record UserUpdate =
  upd_email :: "string option field"
  upd_username :: "string option field"
  upd_full_name :: "string option field"
  upd_is_active :: "bool option field"

section \<open>Storage operations used by the services\<close>

text \<open>
  A Python integer that a query compares with a column, or passes as offset or limit,
  is bound as a parameter of the statement. The SQLite driver binds signed 64-bit
  integers and raises \<^verbatim>\<open>OverflowError\<close> for any other. The model makes this check
  where a route hands an integer of the request to a service: the ids of \<open>get_by_id\<close>
  and the owner, offset and limit of \<open>get_by_owner\<close>. The owner of \<open>create\<close> and of
  \<open>get_stats\<close> is the id of a user that the caller has looked up before.
\<close>

definition sqlite_integer :: "int \<Rightarrow> bool" where
  "sqlite_integer n = (- (2 ^ 63) \<le> n \<and> n < 2 ^ 63)"

text \<open>
  \<^verbatim>\<open>setattr(obj, field, value)\<close> for one key of the update dictionary. On a nullable
  column the supplied value, \<^verbatim>\<open>None\<close> included, replaces the old one. On a NOT NULL
  column a supplied \<^verbatim>\<open>None\<close> is written as NULL at commit, which the table rejects.
\<close>

fun set_nullable :: "'a option field \<Rightarrow> 'a option \<Rightarrow> 'a option" where
  "set_nullable Unset old = old"
| "set_nullable (Given v) old = v"

fun set_required :: "'a option field \<Rightarrow> 'a \<Rightarrow> error + 'a" where
  "set_required Unset old = Inr old"
| "set_required (Given None) old = Inl IntegrityError"
| "set_required (Given (Some v)) old = Inr v"

text \<open>
  A new row gets the integer primary key one above the largest in the table, 1 in an
  empty table (SQLite's rowid rule, below its 63-bit ceiling).
\<close>

fun next_id :: "int list \<Rightarrow> int" where
  "next_id [] = 1"
| "next_id (i # ids) = fold max ids i + 1"

text \<open>
  \<^verbatim>\<open>order_by(Task.created_at.desc())\<close>: descending in \<^verbatim>\<open>created_at\<close>, NULL last (NULL is
  the least value in SQLite, as \<open>None\<close> is the least \<open>option\<close>). SQL leaves the order of
  rows with equal keys open; the model keeps them in storage order.
\<close>

definition order_by_created_at_desc :: "Task list \<Rightarrow> Task list" where
  "order_by_created_at_desc rows = rev (sort_key created_at (rev rows))"

text \<open>
  \<^verbatim>\<open>.offset(n)\<close> and \<^verbatim>\<open>.limit(n)\<close> as SQLite evaluates them: a negative offset is no
  offset, a negative limit is no limit.
\<close>

definition offset :: "int \<Rightarrow> 'a list \<Rightarrow> 'a list" where
  "offset n rows = drop (nat n) rows"

definition limit :: "int \<Rightarrow> 'a list \<Rightarrow> 'a list" where
  "limit n rows = (if n < 0 then rows else take (nat n) rows)"

text \<open>
  \<^verbatim>\<open>query(Task.status, func.count(Task.id)).group_by(Task.status)\<close>: one result row for
  each status that occurs among the rows, with the number of rows of that status.
\<close>

definition group_by_status :: "Task list \<Rightarrow> (TaskStatus \<times> int) list" where
  "group_by_status rows =
     map (\<lambda>s. (s, int (length (filter (\<lambda>t. status t = s) rows)))) (remdups (map status rows))"

section \<open>TaskService (src/services/task_service.py)\<close>

text \<open>The first row of the table with a given primary key, if there is one.\<close>

definition task_row :: "database \<Rightarrow> int \<Rightarrow> Task option" where
  "task_row db tid = find (\<lambda>t. task_id t = tid) (tasks db)"

text \<open>
  \<open>get_by_id\<close>: \<^verbatim>\<open>query(Task).filter(Task.id == task_id).first()\<close> binds \<^verbatim>\<open>task_id\<close>,
  then answers with the row or \<^verbatim>\<open>None\<close>.
\<close>

definition task_get_by_id :: "database \<Rightarrow> int \<Rightarrow> error + Task option" where
  "task_get_by_id db tid =
     (if sqlite_integer tid then Inr (task_row db tid) else Inl OverflowError)"

text \<open>
  \<^verbatim>\<open>self.db.refresh(db_task)\<close> reloads the row by the primary key that the object got from
  the table, and raises when the row is gone.
\<close>

definition task_refresh :: "database \<Rightarrow> int \<Rightarrow> error + Task" where
  "task_refresh db tid =
     (case task_row db tid of None \<Rightarrow> Inl InvalidRequestError | Some t \<Rightarrow> Inr t)"

text \<open>
  \<^verbatim>\<open>self.db.commit()\<close> after attribute assignments on a loaded row. The unit of work
  compares the assigned values with the loaded ones; without a net change it emits no
  UPDATE. With one, the UPDATE goes to the row with the primary key of the loaded object
  and writes the columns the service can assign (the changed ones; the others hold the
  loaded value already) and, by \<^verbatim>\<open>onupdate=func.now()\<close>, the current time into
  \<^verbatim>\<open>updated_at\<close>.
\<close>

definition task_write :: "datetime \<Rightarrow> Task \<Rightarrow> Task \<Rightarrow> Task" where
  "task_write now assigned r =
     r\<lparr>title := title assigned,
       description := description assigned,
       status := status assigned,
       priority := priority assigned,
       due_date := due_date assigned,
       updated_at := Some now\<rparr>"

definition task_commit :: "datetime \<Rightarrow> database \<Rightarrow> Task \<Rightarrow> Task \<Rightarrow> database" where
  "task_commit now db loaded assigned =
     (if assigned = loaded then db
      else db\<lparr>tasks := map (\<lambda>r. if task_id r = task_id loaded
                                  then task_write now assigned r else r) (tasks db)\<rparr>)"

text \<open>
  \<open>get_by_owner\<close> runs two statements. \<^verbatim>\<open>query.count()\<close> binds the owner id; the
  second statement binds the owner id again, the limit and the offset.
\<close>

definition get_by_owner ::
  "database \<Rightarrow> int \<Rightarrow> TaskStatus option \<Rightarrow> int \<Rightarrow> int \<Rightarrow> error + (Task list \<times> int)" where
  "get_by_owner db owner status_filter skip lim =
     (let query = filter (\<lambda>t. owner_id t = owner) (tasks db);
          query = (case status_filter of
                     None \<Rightarrow> query
                   | Some s \<Rightarrow> if status_truthy s then filter (\<lambda>t. status t = s) query
                               else query)
      in if \<not> sqlite_integer owner then Inl OverflowError
         else (let total = int (length query)
               in if \<not> sqlite_integer lim \<or> \<not> sqlite_integer skip then Inl OverflowError
                  else (let page = limit lim (offset skip (order_by_created_at_desc query))
                        in Inr (page, total))))"

text \<open>
  \<open>create\<close>: the row takes the fields of the validated input, the given owner and
  \<^verbatim>\<open>TaskStatus.PENDING\<close>; the table supplies the key and \<^verbatim>\<open>created_at\<close>
  (\<^verbatim>\<open>server_default=func.now()\<close>), and \<^verbatim>\<open>updated_at\<close> stays NULL. SQLite does not
  enforce the foreign key on \<^verbatim>\<open>owner_id\<close> unless asked to, and base.py does not ask.
\<close>

definition task_create ::
  "datetime \<Rightarrow> database \<Rightarrow> TaskCreate \<Rightarrow> int \<Rightarrow> error + (database \<times> Task)" where
  "task_create now db task_data owner =
     (let db_task = \<lparr>task_id = next_id (map task_id (tasks db)),
                     title = new_title task_data,
                     description = new_description task_data,
                     status = PENDING,
                     priority = Some (new_priority task_data),
                     owner_id = owner,
                     created_at = Some now,
                     updated_at = None,
                     due_date = new_due_date task_data\<rparr>;
          db' = db\<lparr>tasks := tasks db @ [db_task]\<rparr>
      in case task_refresh db' (task_id db_task) of
           Inl e \<Rightarrow> Inl e
         | Inr t \<Rightarrow> Inr (db', t))"

definition task_update ::
  "datetime \<Rightarrow> database \<Rightarrow> int \<Rightarrow> TaskUpdate \<Rightarrow> error + (database \<times> Task option)" where
  "task_update now db tid task_data =
     (case task_get_by_id db tid of
        Inl e \<Rightarrow> Inl e
      | Inr None \<Rightarrow> Inr (db, None)
      | Inr (Some db_task) \<Rightarrow>
          (case set_required (upd_title task_data) (title db_task) of
             Inl e \<Rightarrow> Inl e
           | Inr ttl \<Rightarrow>
          (case set_required (upd_status task_data) (status db_task) of
             Inl e \<Rightarrow> Inl e
           | Inr st \<Rightarrow>
               (let assigned = db_task\<lparr>
                      title := ttl,
                      description := set_nullable (upd_description task_data) (description db_task),
                      status := st,
                      priority := set_nullable (upd_priority task_data) (priority db_task),
                      due_date := set_nullable (upd_due_date task_data) (due_date db_task)\<rparr>;
                    db' = task_commit now db db_task assigned
                in case task_refresh db' tid of
                     Inl e \<Rightarrow> Inl e
                   | Inr t \<Rightarrow> Inr (db', Some t)))))"

definition task_delete :: "database \<Rightarrow> int \<Rightarrow> error + (database \<times> bool)" where
  "task_delete db tid =
     (case task_get_by_id db tid of
        Inl e \<Rightarrow> Inl e
      | Inr None \<Rightarrow> Inr (db, False)
      | Inr (Some db_task) \<Rightarrow>
          Inr (db\<lparr>tasks := filter (\<lambda>r. task_id r \<noteq> task_id db_task) (tasks db)\<rparr>, True))"

definition mark_completed ::
  "datetime \<Rightarrow> database \<Rightarrow> int \<Rightarrow> error + (database \<times> Task option)" where
  "mark_completed now db tid =
     (case task_get_by_id db tid of
        Inl e \<Rightarrow> Inl e
      | Inr None \<Rightarrow> Inr (db, None)
      | Inr (Some db_task) \<Rightarrow>
          (let db' = task_commit now db db_task (db_task\<lparr>status := COMPLETED\<rparr>)
           in case task_refresh db' tid of
                Inl e \<Rightarrow> Inl e
              | Inr t \<Rightarrow> Inr (db', Some t)))"

text \<open>
  \<open>get_stats\<close>: the dictionary starts with 0 under the string value of every status and
  is then overwritten with the counts of the grouped query.
\<close>

definition get_stats :: "database \<Rightarrow> int \<Rightarrow> (string \<rightharpoonup> int)" where
  "get_stats db owner =
     (let results = group_by_status (filter (\<lambda>t. owner_id t = owner) (tasks db));
          stats = map_of (map (\<lambda>s. (status_value s, 0)) all_statuses)
      in fold (\<lambda>(s, count) stats. stats(status_value s \<mapsto> count)) results stats)"

section \<open>UserService (src/services/user_service.py)\<close>

definition user_row :: "database \<Rightarrow> int \<Rightarrow> User option" where
  "user_row db uid = find (\<lambda>u. user_id u = uid) (users db)"

definition user_get_by_id :: "database \<Rightarrow> int \<Rightarrow> error + User option" where
  "user_get_by_id db uid =
     (if sqlite_integer uid then Inr (user_row db uid) else Inl OverflowError)"

definition get_by_email :: "database \<Rightarrow> string \<Rightarrow> User option" where
  "get_by_email db e = find (\<lambda>u. email u = e) (users db)"

definition get_by_username :: "database \<Rightarrow> string \<Rightarrow> User option" where
  "get_by_username db name = find (\<lambda>u. username u = name) (users db)"

definition user_refresh :: "database \<Rightarrow> int \<Rightarrow> error + User" where
  "user_refresh db uid =
     (case user_row db uid of None \<Rightarrow> Inl InvalidRequestError | Some u \<Rightarrow> Inr u)"

text \<open>
  The UNIQUE constraints on \<^verbatim>\<open>email\<close> and \<^verbatim>\<open>username\<close>: a write of a value that another
  row already holds is rejected.
\<close>

definition email_taken :: "database \<Rightarrow> int \<Rightarrow> string \<Rightarrow> bool" where
  "email_taken db uid e = list_ex (\<lambda>r. user_id r \<noteq> uid \<and> email r = e) (users db)"

definition username_taken :: "database \<Rightarrow> int \<Rightarrow> string \<Rightarrow> bool" where
  "username_taken db uid name = list_ex (\<lambda>r. user_id r \<noteq> uid \<and> username r = name) (users db)"

text \<open>
  Commit of attribute assignments on a loaded user: no UPDATE without a net change;
  otherwise the UPDATE writes the assignable columns, fails on a UNIQUE violation of a
  changed \<^verbatim>\<open>email\<close> or \<^verbatim>\<open>username\<close>, and stamps \<^verbatim>\<open>updated_at\<close>.
\<close>

definition user_write :: "datetime \<Rightarrow> User \<Rightarrow> User \<Rightarrow> User" where
  "user_write now assigned r =
     r\<lparr>email := email assigned,
       username := username assigned,
       full_name := full_name assigned,
       is_active := is_active assigned,
       user_updated_at := Some now\<rparr>"

definition user_commit :: "datetime \<Rightarrow> database \<Rightarrow> User \<Rightarrow> User \<Rightarrow> error + database" where
  "user_commit now db loaded assigned =
     (if assigned = loaded then Inr db
      else if email assigned \<noteq> email loaded \<and> email_taken db (user_id loaded) (email assigned)
        then Inl IntegrityError
      else if username assigned \<noteq> username loaded
                \<and> username_taken db (user_id loaded) (username assigned)
        then Inl IntegrityError
      else Inr (db\<lparr>users := map (\<lambda>r. if user_id r = user_id loaded
                                       then user_write now assigned r else r)
                                 (users db)\<rparr>))"

text \<open>
  \<open>create\<close>: \<open>pwd_hash\<close> stands for \<^verbatim>\<open>pwd_context.hash\<close> (passlib's bcrypt, outside the
  repository). \<^verbatim>\<open>is_active\<close> and \<^verbatim>\<open>is_superuser\<close> take their column defaults.
\<close>

definition user_create ::
  "(string \<Rightarrow> string) \<Rightarrow> datetime \<Rightarrow> database \<Rightarrow> UserCreate \<Rightarrow> error + (database \<times> User)" where
  "user_create pwd_hash now db user_data =
     (let db_user = \<lparr>user_id = next_id (map user_id (users db)),
                     email = reg_email user_data,
                     username = reg_username user_data,
                     hashed_password = pwd_hash (reg_password user_data),
                     full_name = reg_full_name user_data,
                     is_active = Some True,
                     is_superuser = Some False,
                     user_created_at = Some now,
                     user_updated_at = None\<rparr>
      in if email_taken db (user_id db_user) (email db_user)
            \<or> username_taken db (user_id db_user) (username db_user)
         then Inl IntegrityError
         else (let db' = db\<lparr>users := users db @ [db_user]\<rparr>
               in case user_refresh db' (user_id db_user) of
                    Inl e \<Rightarrow> Inl e
                  | Inr u \<Rightarrow> Inr (db', u)))"

definition user_update ::
  "datetime \<Rightarrow> database \<Rightarrow> int \<Rightarrow> UserUpdate \<Rightarrow> error + (database \<times> User option)" where
  "user_update now db uid user_data =
     (case user_get_by_id db uid of
        Inl e \<Rightarrow> Inl e
      | Inr None \<Rightarrow> Inr (db, None)
      | Inr (Some db_user) \<Rightarrow>
          (case set_required (upd_email user_data) (email db_user) of
             Inl e \<Rightarrow> Inl e
           | Inr em \<Rightarrow>
          (case set_required (upd_username user_data) (username db_user) of
             Inl e \<Rightarrow> Inl e
           | Inr un \<Rightarrow>
               (let assigned = db_user\<lparr>
                      email := em,
                      username := un,
                      full_name := set_nullable (upd_full_name user_data) (full_name db_user),
                      is_active := set_nullable (upd_is_active user_data) (is_active db_user)\<rparr>
                in case user_commit now db db_user assigned of
                     Inl e \<Rightarrow> Inl e
                   | Inr db' \<Rightarrow>
                       (case user_refresh db' uid of
                          Inl e \<Rightarrow> Inl e
                        | Inr u \<Rightarrow> Inr (db', Some u))))))"

text \<open>
  \<open>delete\<close>: the relationship \<^verbatim>\<open>User.tasks\<close> declares no delete cascade, so on deleting
  a user the unit of work first detaches the user's tasks by writing NULL into their
  \<^verbatim>\<open>owner_id\<close>. That column is \<^verbatim>\<open>nullable=False\<close>: with at least one owned task the
  commit fails and nothing is deleted.
\<close>

definition user_delete :: "database \<Rightarrow> int \<Rightarrow> error + (database \<times> bool)" where
  "user_delete db uid =
     (case user_get_by_id db uid of
        Inl e \<Rightarrow> Inl e
      | Inr None \<Rightarrow> Inr (db, False)
      | Inr (Some db_user) \<Rightarrow>
          if list_ex (\<lambda>t. owner_id t = user_id db_user) (tasks db)
          then Inl IntegrityError
          else Inr (db\<lparr>users := filter (\<lambda>r. user_id r \<noteq> user_id db_user) (users db)\<rparr>, True))"

text \<open>
  \<open>verify_password\<close> is \<^verbatim>\<open>pwd_context.verify\<close>, a parameter here: it answers with a
  boolean, or raises when the stored digest is not one it can identify.
\<close>

definition authenticate ::
  "(string \<Rightarrow> string \<Rightarrow> error + bool) \<Rightarrow> database \<Rightarrow> string \<Rightarrow> string \<Rightarrow> error + User option" where
  "authenticate verify_password db name password =
     (case get_by_username db name of
        None \<Rightarrow> Inr None
      | Some user \<Rightarrow>
          (case verify_password password (hashed_password user) of
             Inl e \<Rightarrow> Inl e
           | Inr ok \<Rightarrow> if \<not> ok then Inr None else Inr (Some user)))"

section \<open>The specification's filtered set\<close>

text \<open>
  The set that the specification of \<open>listByOwner\<close> counts and pages, in its own words:
  the stored tasks whose \<open>owner_id\<close> is the given owner and, when a status filter is
  given, whose status is that filter. It is kept in storage order.
\<close>

definition matching_tasks :: "database \<Rightarrow> int \<Rightarrow> TaskStatus option \<Rightarrow> Task list" where
  "matching_tasks db owner status_filter =
     filter (\<lambda>t. owner_id t = owner
                \<and> (case status_filter of None \<Rightarrow> True | Some s \<Rightarrow> status t = s)) (tasks db)"

section \<open>A sample database\<close>

text \<open>
  Three users and four tasks, used to run the operations on concrete inputs: user 1 owns
  tasks 1 to 3, user 2 owns task 4, user 3 owns nothing.
\<close>

definition sample_user :: "int \<Rightarrow> string \<Rightarrow> string \<Rightarrow> User" where
  "sample_user uid e name =
     \<lparr>user_id = uid, email = e, username = name, hashed_password = ''$2b$12$digest'',
      full_name = None, is_active = Some True, is_superuser = Some False,
      user_created_at = Some 100, user_updated_at = None\<rparr>"

definition sample_task :: "int \<Rightarrow> TaskStatus \<Rightarrow> int \<Rightarrow> datetime \<Rightarrow> Task" where
  "sample_task tid st owner created =
     \<lparr>task_id = tid, title = ''T'', description = None, status = st, priority = Some 3,
      owner_id = owner, created_at = Some created, updated_at = None, due_date = None\<rparr>"

definition sample_db :: database where
  "sample_db =
     \<lparr>users = [sample_user 1 ''a@x.com'' ''a'', sample_user 2 ''b@x.com'' ''b'',
               sample_user 3 ''c@x.com'' ''c''],
      tasks = [sample_task 1 CANCELLED 1 100, sample_task 2 PENDING 1 200,
               sample_task 3 PENDING 1 300, sample_task 4 COMPLETED 2 150]\<rparr>"

text \<open>
  A stand-in for \<^verbatim>\<open>pwd_context.verify\<close>: it knows the digest stored in the sample users
  as that of \<^verbatim>\<open>password123\<close> and cannot identify any other digest.
\<close>

definition sample_verify :: "string \<Rightarrow> string \<Rightarrow> error + bool" where
  "sample_verify password digest =
     (if digest = ''$2b$12$digest'' then Inr (password = ''password123'')
      else Inl UnknownHashError)"

definition sample_task_data :: TaskCreate where
  "sample_task_data =
     \<lparr>new_title = ''T1'', new_description = None, new_priority = 3, new_due_date = None\<rparr>"

text \<open>Partial updates: a new full name; a null email; the email of user 2; a new title and priority.\<close>

definition sample_rename :: UserUpdate where
  "sample_rename =
     \<lparr>upd_email = Unset, upd_username = Unset, upd_full_name = Given (Some ''Ann''),
      upd_is_active = Unset\<rparr>"

definition sample_null_email :: UserUpdate where
  "sample_null_email =
     \<lparr>upd_email = Given None, upd_username = Unset, upd_full_name = Unset,
      upd_is_active = Unset\<rparr>"

definition sample_taken_email :: UserUpdate where
  "sample_taken_email =
     \<lparr>upd_email = Given (Some ''b@x.com''), upd_username = Unset, upd_full_name = Unset,
      upd_is_active = Unset\<rparr>"

definition sample_retitle :: TaskUpdate where
  "sample_retitle =
     \<lparr>upd_title = Given (Some ''Updated Title''), upd_description = Unset, upd_status = Unset,
      upd_priority = Given (Some 5), upd_due_date = Unset\<rparr>"

section \<open>Lookups by key\<close>

lemma find_key_eq: "find (\<lambda>r. key r = k) xs = Some x \<Longrightarrow> key x = k"
  by (induction xs) (auto split: if_splits)

lemma find_key_mem: "find (\<lambda>r. key r = k) xs = Some x \<Longrightarrow> x \<in> set xs"
  by (induction xs) (auto split: if_splits)

lemma find_map_write:
  assumes "\<And>r. key (f r) = key r"
  shows "find (\<lambda>r. key r = j) (map (\<lambda>r. if key r = k then f r else r) xs)
           = map_option (\<lambda>r. if key r = k then f r else r) (find (\<lambda>r. key r = j) xs)"
  by (induction xs) (simp_all add: assms)

lemma task_row_key: "task_row db tid = Some t \<Longrightarrow> task_id t = tid"
  unfolding task_row_def by (rule find_key_eq)

section \<open>Committing a changed task\<close>

lemma task_write_id: "task_id (task_write now assigned r) = task_id r"
  by (simp add: task_write_def)

lemma task_commit_get:
  assumes "task_row db tid = Some loaded"
  shows "task_row (task_commit now db loaded assigned) tid =
           Some (if assigned = loaded then loaded else task_write now assigned loaded)"
proof -
  have k: "task_id loaded = tid"
    using assms by (rule task_row_key)
  have f: "find (\<lambda>r. task_id r = tid) (tasks db) = Some loaded"
    using assms by (simp only: task_row_def)
  show ?thesis
    unfolding task_commit_def task_row_def
    by (simp add: find_map_write [of task_id, OF task_write_id] f k)
qed

lemma task_commit_get_other:
  assumes "task_row db tid = Some loaded" and "other \<noteq> tid"
  shows "task_row (task_commit now db loaded assigned) other = task_row db other"
proof -
  have k: "task_id loaded = tid"
    using assms(1) by (rule task_row_key)
  have "map_option (\<lambda>r. if task_id r = tid then task_write now assigned r else r)
          (find (\<lambda>r. task_id r = other) (tasks db)) = find (\<lambda>r. task_id r = other) (tasks db)"
  proof (cases "find (\<lambda>r. task_id r = other) (tasks db)")
    case None
    then show ?thesis by simp
  next
    case (Some r)
    then have "task_id r = other" by (rule find_key_eq)
    with assms(2) Some show ?thesis by simp
  qed
  then show ?thesis
    unfolding task_commit_def task_row_def
    by (simp add: find_map_write [of task_id, OF task_write_id] k)
qed

lemma task_commit_users: "users (task_commit now db loaded assigned) = users db"
  by (simp add: task_commit_def)

section \<open>mark_completed\<close>

lemma mark_assigned_same:
  "(db_task\<lparr>status := COMPLETED\<rparr> = db_task) = (status db_task = COMPLETED)"
proof
  assume "db_task\<lparr>status := COMPLETED\<rparr> = db_task"
  then have "status (db_task\<lparr>status := COMPLETED\<rparr>) = status db_task" by (rule arg_cong)
  then show "status db_task = COMPLETED" by simp
next
  assume a: "status db_task = COMPLETED"
  have "db_task\<lparr>status := status db_task\<rparr> = db_task" by simp
  then show "db_task\<lparr>status := COMPLETED\<rparr> = db_task" unfolding a .
qed

lemma mark_write:
  "task_write now (db_task\<lparr>status := COMPLETED\<rparr>) db_task
     = db_task\<lparr>status := COMPLETED, updated_at := Some now\<rparr>"
  by (simp add: task_write_def)

lemma mark_completed_found:
  assumes found: "task_row db tid = Some db_task" and rng: "sqlite_integer tid"
  shows "mark_completed now db tid =
           Inr (task_commit now db db_task (db_task\<lparr>status := COMPLETED\<rparr>),
                Some (if status db_task = COMPLETED then db_task
                      else db_task\<lparr>status := COMPLETED, updated_at := Some now\<rparr>))"
    and "task_row (task_commit now db db_task (db_task\<lparr>status := COMPLETED\<rparr>)) tid =
           Some (if status db_task = COMPLETED then db_task
                      else db_task\<lparr>status := COMPLETED, updated_at := Some now\<rparr>)"
proof -
  show get: "task_row (task_commit now db db_task (db_task\<lparr>status := COMPLETED\<rparr>)) tid =
           Some (if status db_task = COMPLETED then db_task
                      else db_task\<lparr>status := COMPLETED, updated_at := Some now\<rparr>)"
    unfolding task_commit_get [OF found] mark_assigned_same mark_write ..
  show "mark_completed now db tid =
           Inr (task_commit now db db_task (db_task\<lparr>status := COMPLETED\<rparr>),
                Some (if status db_task = COMPLETED then db_task
                      else db_task\<lparr>status := COMPLETED, updated_at := Some now\<rparr>))"
    using rng
    by (simp only: mark_completed_def task_get_by_id_def task_refresh_def Let_def found get
        if_True sum.case option.case)
qed

text \<open>
  Claim C2, as amended. For a task id within the range of an SQLite INTEGER: if a task
  with the id is stored, whatever its status (the stored task \<open>db_task\<close> is arbitrary),
  \<open>mark_completed\<close> returns the task with status COMPLETED, and \<open>get_by_id\<close> on the
  resulting database gives that same task. The task is otherwise as stored, except that
  \<open>updated_at\<close> is stamped when the status really changed; the users and the tasks with
  other ids are as before. If no task with the id is stored, it returns \<open>None\<close> and the
  database is unchanged.
\<close>

theorem mark_completed_any_status:
  assumes "sqlite_integer tid"
  shows "(\<forall>db_task. task_row db tid = Some db_task \<longrightarrow>
      (\<exists>db' t. mark_completed now db tid = Inr (db', Some t)
         \<and> status t = COMPLETED
         \<and> t = (if status db_task = COMPLETED then db_task
                else db_task\<lparr>status := COMPLETED, updated_at := Some now\<rparr>)
         \<and> task_get_by_id db' tid = Inr (Some t)
         \<and> users db' = users db
         \<and> (\<forall>other. other \<noteq> tid \<longrightarrow> task_row db' other = task_row db other)))
   \<and> (task_row db tid = None \<longrightarrow> mark_completed now db tid = Inr (db, None))"
proof (intro conjI allI impI)
  fix db_task
  assume found: "task_row db tid = Some db_task"
  let ?db' = "task_commit now db db_task (db_task\<lparr>status := COMPLETED\<rparr>)"
  let ?t = "if status db_task = COMPLETED then db_task
            else db_task\<lparr>status := COMPLETED, updated_at := Some now\<rparr>"
  have st: "status ?t = COMPLETED" by simp
  have us: "users ?db' = users db" by (rule task_commit_users)
  have fr: "\<forall>other. other \<noteq> tid \<longrightarrow> task_row ?db' other = task_row db other"
    using task_commit_get_other [OF found] by blast
  have get: "task_get_by_id ?db' tid = Inr (Some ?t)"
    unfolding task_get_by_id_def mark_completed_found(2) [OF found assms] using assms by simp
  show "\<exists>db' t. mark_completed now db tid = Inr (db', Some t)
         \<and> status t = COMPLETED
         \<and> t = ?t
         \<and> task_get_by_id db' tid = Inr (Some t)
         \<and> users db' = users db
         \<and> (\<forall>other. other \<noteq> tid \<longrightarrow> task_row db' other = task_row db other)"
    using mark_completed_found(1) [OF found assms, of now] st get us fr by blast
next
  assume "task_row db tid = None"
  then show "mark_completed now db tid = Inr (db, None)"
    using assms by (simp add: mark_completed_def task_get_by_id_def)
qed

text \<open>
  In the sample database task 1 is cancelled: completing it at time 900 succeeds and
  stores the completed task; id 7 is not stored.
\<close>

theorem mark_completed_any_status_witness:
  "sqlite_integer 1 \<and> sqlite_integer 7
   \<and> task_row sample_db 1 = Some (sample_task 1 CANCELLED 1 100)
   \<and> mark_completed 900 sample_db 1 =
       Inr (sample_db\<lparr>tasks := [(sample_task 1 COMPLETED 1 100)\<lparr>updated_at := Some 900\<rparr>,
                                sample_task 2 PENDING 1 200, sample_task 3 PENDING 1 300,
                                sample_task 4 COMPLETED 2 150]\<rparr>,
            Some ((sample_task 1 COMPLETED 1 100)\<lparr>updated_at := Some 900\<rparr>))
   \<and> task_row sample_db 7 = None
   \<and> mark_completed 900 sample_db 7 = Inr (sample_db, None)"
proof -
  have r1: "sqlite_integer 1" and r7: "sqlite_integer 7"
    by (simp_all add: sqlite_integer_def)
  show ?thesis
    using r1 r7 mark_completed_any_status [OF r1, of sample_db 900]
      mark_completed_any_status [OF r7, of sample_db 900]
    by (simp add: mark_completed_def task_get_by_id_def task_row_def task_refresh_def
        task_commit_def task_write_def sample_db_def sample_task_def)
qed

text \<open>
  The claim as it was stated fails for an id beyond the range of an SQLite INTEGER: no
  task with id \<open>2^63\<close> is stored, and \<open>mark_completed\<close> raises instead of returning
  \<open>None\<close>.
\<close>

theorem mark_completed_absent_counterexample:
  "task_row sample_db 9223372036854775808 = None
   \<and> mark_completed 900 sample_db 9223372036854775808 = Inl OverflowError"
  by (simp add: mark_completed_def task_get_by_id_def task_row_def sqlite_integer_def
      sample_db_def sample_task_def)

section \<open>get_by_owner\<close>

text \<open>Every member of the enumeration has a non-empty value, so a given filter always applies.\<close>

lemma status_truthy_all: "status_truthy s"
  by (cases s) (simp_all add: status_truthy_def)

lemma get_by_owner_eq:
  assumes "sqlite_integer owner" and "sqlite_integer skip" and "sqlite_integer lim"
  shows "get_by_owner db owner status_filter skip lim =
     Inr (limit lim (offset skip (order_by_created_at_desc (matching_tasks db owner status_filter))),
          int (length (matching_tasks db owner status_filter)))"
proof (cases status_filter)
  case None
  then show ?thesis
    using assms by (simp add: get_by_owner_def matching_tasks_def Let_def)
next
  case (Some s)
  have "filter (\<lambda>t. status t = s) (filter (\<lambda>t. owner_id t = owner) (tasks db))
        = filter (\<lambda>t. owner_id t = owner \<and> status t = s) (tasks db)"
    by (simp add: conj_commute)
  with Some show ?thesis
    using assms by (simp add: get_by_owner_def matching_tasks_def status_truthy_all Let_def)
qed

lemma mset_order_by: "mset (order_by_created_at_desc rows) = mset rows"
  by (simp add: order_by_created_at_desc_def)

lemma sorted_order_by:
  "sorted_wrt (\<lambda>a b. created_at b \<le> created_at a) (order_by_created_at_desc rows)"
proof -
  have "sorted (map created_at (sort_key created_at (rev rows)))"
    by (rule sorted_sort_key)
  then have "sorted_wrt (\<lambda>a b. created_at a \<le> created_at b) (sort_key created_at (rev rows))"
    by (simp only: sorted_map)
  then show ?thesis
    by (simp only: order_by_created_at_desc_def sorted_wrt_rev)
qed

lemma get_by_owner_page:
  assumes "sqlite_integer owner" and "sqlite_integer skip" and "sqlite_integer lim"
    and "0 \<le> skip" and "0 \<le> lim"
  shows "get_by_owner db owner status_filter skip lim =
           Inr (take (nat lim) (drop (nat skip)
                  (order_by_created_at_desc (matching_tasks db owner status_filter))),
                int (length (matching_tasks db owner status_filter)))"
  using assms by (simp add: get_by_owner_eq limit_def offset_def)

lemma window_subset:
  "set (take n (drop k (order_by_created_at_desc rows))) \<subseteq> set rows"
proof -
  have "set (take n (drop k (order_by_created_at_desc rows))) \<subseteq> set (order_by_created_at_desc rows)"
    by (meson set_take_subset set_drop_subset subset_trans)
  moreover have "set (order_by_created_at_desc rows) = set rows"
    using mset_order_by [of rows] by (rule mset_eq_setD)
  ultimately show ?thesis by simp
qed

text \<open>
  Claim C1, as amended. Let the owner id be within the range of an SQLite INTEGER. The
  tasks of the owner that match the optional status filter have one ordering, which
  holds exactly these tasks (as a multiset) in descending order of \<open>created_at\<close>, most
  recent first, and which does not depend on \<open>skip\<close> and \<open>lim\<close>. For every \<open>skip \<ge> 0\<close>
  and \<open>lim \<ge> 0\<close> within that range, \<open>get_by_owner\<close> returns the pair of the window
  \<open>take lim (drop skip \<dots>)\<close> of this ordering and the number of matching tasks, in which
  \<open>skip\<close> and \<open>lim\<close> do not occur. So every page holds only matching tasks, at most
  \<open>lim\<close> of them, and the pages of different windows are cut from the same sequence.
\<close>

theorem get_by_owner_window:
  assumes "sqlite_integer owner"
  shows "mset (order_by_created_at_desc (matching_tasks db owner status_filter))
           = mset (matching_tasks db owner status_filter)
     \<and> sorted_wrt (\<lambda>a b. created_at b \<le> created_at a)
           (order_by_created_at_desc (matching_tasks db owner status_filter))
     \<and> (\<forall>skip lim. 0 \<le> skip \<and> sqlite_integer skip \<and> 0 \<le> lim \<and> sqlite_integer lim \<longrightarrow>
           get_by_owner db owner status_filter skip lim =
             Inr (take (nat lim) (drop (nat skip)
                    (order_by_created_at_desc (matching_tasks db owner status_filter))),
                  int (length (matching_tasks db owner status_filter)))
           \<and> set (take (nat lim) (drop (nat skip)
                    (order_by_created_at_desc (matching_tasks db owner status_filter))))
               \<subseteq> set (matching_tasks db owner status_filter)
           \<and> length (take (nat lim) (drop (nat skip)
                    (order_by_created_at_desc (matching_tasks db owner status_filter))))
               \<le> nat lim)"
proof (intro conjI allI impI)
  show "mset (order_by_created_at_desc (matching_tasks db owner status_filter))
           = mset (matching_tasks db owner status_filter)"
    by (rule mset_order_by)
  show "sorted_wrt (\<lambda>a b. created_at b \<le> created_at a)
           (order_by_created_at_desc (matching_tasks db owner status_filter))"
    by (rule sorted_order_by)
next
  fix skip lim
  assume h: "0 \<le> skip \<and> sqlite_integer skip \<and> 0 \<le> lim \<and> sqlite_integer lim"
  show "get_by_owner db owner status_filter skip lim =
             Inr (take (nat lim) (drop (nat skip)
                    (order_by_created_at_desc (matching_tasks db owner status_filter))),
                  int (length (matching_tasks db owner status_filter)))"
    using assms h by (intro get_by_owner_page) simp_all
  show "set (take (nat lim) (drop (nat skip)
                    (order_by_created_at_desc (matching_tasks db owner status_filter))))
               \<subseteq> set (matching_tasks db owner status_filter)"
    by (rule window_subset)
  show "length (take (nat lim) (drop (nat skip)
                    (order_by_created_at_desc (matching_tasks db owner status_filter))))
               \<le> nat lim"
    by simp
qed

text \<open>
  User 1 of the sample database owns three tasks, created at 100, 200 and 300. The
  windows of size 1 at offsets 0, 1 and 2 are the tasks created at 300, 200 and 100, and
  the total is 3 each time.
\<close>

theorem get_by_owner_window_witness:
  "sqlite_integer 1 \<and> sqlite_integer 0 \<and> sqlite_integer 2
   \<and> matching_tasks sample_db 1 None =
       [sample_task 1 CANCELLED 1 100, sample_task 2 PENDING 1 200, sample_task 3 PENDING 1 300]
   \<and> order_by_created_at_desc (matching_tasks sample_db 1 None) =
       [sample_task 3 PENDING 1 300, sample_task 2 PENDING 1 200, sample_task 1 CANCELLED 1 100]
   \<and> get_by_owner sample_db 1 None 0 1 = Inr ([sample_task 3 PENDING 1 300], 3)
   \<and> get_by_owner sample_db 1 None 1 1 = Inr ([sample_task 2 PENDING 1 200], 3)
   \<and> get_by_owner sample_db 1 None 2 1 = Inr ([sample_task 1 CANCELLED 1 100], 3)"
proof -
  have r: "sqlite_integer 1" "sqlite_integer 0" "sqlite_integer 2"
    by (simp_all add: sqlite_integer_def)
  have m: "matching_tasks sample_db 1 None =
       [sample_task 1 CANCELLED 1 100, sample_task 2 PENDING 1 200, sample_task 3 PENDING 1 300]"
    by (simp add: matching_tasks_def sample_db_def sample_task_def)
  have ord: "order_by_created_at_desc (matching_tasks sample_db 1 None) =
       [sample_task 3 PENDING 1 300, sample_task 2 PENDING 1 200, sample_task 1 CANCELLED 1 100]"
    unfolding m by (simp add: order_by_created_at_desc_def sample_task_def)
  have all: "\<forall>skip lim. 0 \<le> skip \<and> sqlite_integer skip \<and> 0 \<le> lim \<and> sqlite_integer lim \<longrightarrow>
           get_by_owner sample_db 1 None skip lim =
             Inr (take (nat lim) (drop (nat skip)
                    (order_by_created_at_desc (matching_tasks sample_db 1 None))),
                  int (length (matching_tasks sample_db 1 None)))"
    using get_by_owner_window [OF r(1), of sample_db None] by blast
  have p0: "get_by_owner sample_db 1 None 0 1 = Inr ([sample_task 3 PENDING 1 300], 3)"
    using all [rule_format, of 0 1] r by (simp add: ord) (simp add: m)
  have p1: "get_by_owner sample_db 1 None 1 1 = Inr ([sample_task 2 PENDING 1 200], 3)"
    using all [rule_format, of 1 1] r by (simp add: ord) (simp add: m)
  have p2: "get_by_owner sample_db 1 None 2 1 = Inr ([sample_task 1 CANCELLED 1 100], 3)"
    using all [rule_format, of 2 1] r by (simp add: ord) (simp add: m)
  show ?thesis using r m ord p0 p1 p2 by simp
qed

text \<open>
  The claim as it was stated fails for a \<open>skip\<close> or a limit beyond the range of an
  SQLite INTEGER: both are at least 0, and \<open>get_by_owner\<close> raises instead of returning a
  pair.
\<close>

theorem get_by_owner_window_counterexample:
  "(0::int) \<le> 9223372036854775808 \<and> (0::int) \<le> 20
   \<and> get_by_owner sample_db 1 None 9223372036854775808 20 = Inl OverflowError
   \<and> get_by_owner sample_db 1 None 0 9223372036854775808 = Inl OverflowError"
  by (simp add: get_by_owner_def sqlite_integer_def Let_def)

text \<open>
  Claim C9, as amended. For an owner id, a \<open>skip\<close> and a \<open>lim\<close> within the range of an
  SQLite INTEGER: whenever \<open>skip\<close> is at least the number of matching tasks,
  \<open>get_by_owner\<close> returns the empty page (for negative \<open>lim\<close> too), and the total is
  still the full number of matching tasks.
\<close>

theorem get_by_owner_beyond_end:
  assumes "sqlite_integer owner" and "sqlite_integer skip" and "sqlite_integer lim"
    and "int (length (matching_tasks db owner status_filter)) \<le> skip"
  shows "get_by_owner db owner status_filter skip lim =
           Inr ([], int (length (matching_tasks db owner status_filter)))"
proof -
  let ?m = "matching_tasks db owner status_filter"
  have "length (order_by_created_at_desc ?m) = length ?m"
    using mset_order_by [of ?m] by (rule mset_eq_length)
  with assms(4) have "offset skip (order_by_created_at_desc ?m) = []"
    by (simp add: offset_def)
  then show ?thesis
    by (simp add: get_by_owner_eq [OF assms(1-3)] limit_def)
qed

text \<open>
  Two pending tasks of user 1: at offset 2, and at the largest offset that can be bound,
  the page is empty and the total is 2.
\<close>

theorem get_by_owner_beyond_end_witness:
  "sqlite_integer 1 \<and> sqlite_integer 2 \<and> sqlite_integer 20
   \<and> sqlite_integer 9223372036854775807
   \<and> int (length (matching_tasks sample_db 1 (Some PENDING))) \<le> 2
   \<and> get_by_owner sample_db 1 (Some PENDING) 2 20 = Inr ([], 2)
   \<and> get_by_owner sample_db 1 (Some PENDING) 9223372036854775807 20 = Inr ([], 2)"
proof -
  have r: "sqlite_integer 1" "sqlite_integer 2" "sqlite_integer 20"
    "sqlite_integer 9223372036854775807"
    by (simp_all add: sqlite_integer_def)
  have h: "int (length (matching_tasks sample_db 1 (Some PENDING))) \<le> 2"
    by (simp add: matching_tasks_def sample_db_def sample_task_def)
  have h': "int (length (matching_tasks sample_db 1 (Some PENDING))) \<le> 9223372036854775807"
    using h by simp
  show ?thesis
    using r h get_by_owner_beyond_end [OF r(1) r(2) r(3) h]
      get_by_owner_beyond_end [OF r(1) r(4) r(3) h']
    by (simp add: matching_tasks_def sample_db_def sample_task_def)
qed

text \<open>
  The claim as it was stated fails for a \<open>skip\<close> beyond the range of an SQLite INTEGER:
  it is at least the number of matching tasks, and \<open>get_by_owner\<close> raises instead of
  returning the empty page with the count. It fails in the same way for a limit beyond
  that range.
\<close>

theorem get_by_owner_beyond_end_counterexample:
  "int (length (matching_tasks sample_db 1 (Some PENDING))) \<le> 9223372036854775808
   \<and> get_by_owner sample_db 1 (Some PENDING) 9223372036854775808 20 = Inl OverflowError
   \<and> int (length (matching_tasks sample_db 1 (Some PENDING))) \<le> 5
   \<and> get_by_owner sample_db 1 (Some PENDING) 5 9223372036854775808 = Inl OverflowError"
  by (simp add: get_by_owner_def sqlite_integer_def Let_def matching_tasks_def sample_db_def
      sample_task_def)

section \<open>get_stats\<close>

lemma status_value_inj: "status_value s = status_value s' \<Longrightarrow> s = s'"
  by (cases s; cases s') simp_all

lemma fold_stats_lookup:
  "distinct (map fst rs) \<Longrightarrow>
   fold (\<lambda>(s, count) stats. stats(status_value s \<mapsto> count)) rs m0 (status_value s)
     = (case map_of rs s of None \<Rightarrow> m0 (status_value s) | Some c \<Rightarrow> Some c)"
proof (induction rs arbitrary: m0)
  case Nil
  then show ?case by simp
next
  case (Cons r rs)
  obtain s' c' where r: "r = (s', c')" by (cases r)
  have d: "distinct (map fst rs)" and n: "s' \<notin> fst ` set rs"
    using Cons.prems by (simp_all add: r)
  show ?case
  proof (cases "s' = s")
    case True
    with n have "map_of rs s = None" by (simp add: map_of_eq_None_iff)
    then show ?thesis using Cons.IH [OF d] True by (simp add: r)
  next
    case False
    then have "status_value s' \<noteq> status_value s" using status_value_inj by blast
    then show ?thesis using Cons.IH [OF d] False by (simp add: r)
  qed
qed

lemma fold_stats_dom:
  "dom (fold (\<lambda>(s, count) stats. stats(status_value s \<mapsto> count)) rs m0)
     = dom m0 \<union> status_value ` fst ` set rs"
  by (induction rs arbitrary: m0) (auto split: prod.splits)

lemma map_of_group_by_status:
  "map_of (group_by_status rows) s =
     (if s \<in> status ` set rows then Some (int (length (filter (\<lambda>t. status t = s) rows))) else None)"
proof -
  have "map_of (map (\<lambda>k. (k, f k)) ks) s = (if s \<in> set ks then Some (f s) else None)"
    for f :: "TaskStatus \<Rightarrow> int" and ks
    by (induction ks) auto
  then show ?thesis by (simp add: group_by_status_def)
qed

lemma distinct_group_by_status: "distinct (map fst (group_by_status rows))"
  by (simp add: group_by_status_def comp_def)

lemma initial_stats:
  "map_of (map (\<lambda>s. (status_value s, 0::int)) all_statuses) (status_value s) = Some 0"
  by (cases s) (simp_all add: all_statuses_def)

lemma initial_stats_dom:
  "dom (map_of (map (\<lambda>s. (status_value s, 0::int)) all_statuses))
     = {''pending'', ''in_progress'', ''completed'', ''cancelled''}"
  by (auto simp: all_statuses_def dom_map_of_conv_image_fst)

lemma status_value_range:
  "status_value s \<in> {''pending'', ''in_progress'', ''completed'', ''cancelled''}"
  by (cases s) simp_all

lemma get_stats_lookup:
  "get_stats db owner (status_value s) =
     Some (int (length (filter (\<lambda>t. owner_id t = owner \<and> status t = s) (tasks db))))"
proof -
  let ?rows = "filter (\<lambda>t. owner_id t = owner) (tasks db)"
  have cnt: "filter (\<lambda>t. status t = s) ?rows = filter (\<lambda>t. owner_id t = owner \<and> status t = s) (tasks db)"
    by (simp add: conj_commute)
  have none: "s \<notin> status ` set ?rows \<Longrightarrow> filter (\<lambda>t. status t = s) ?rows = []"
    by (auto simp: filter_empty_conv)
  have "get_stats db owner (status_value s) =
          (case map_of (group_by_status ?rows) s of None \<Rightarrow> Some 0 | Some c \<Rightarrow> Some c)"
    unfolding get_stats_def Let_def
    by (simp only: fold_stats_lookup [OF distinct_group_by_status] initial_stats)
  also have "\<dots> = Some (int (length (filter (\<lambda>t. status t = s) ?rows)))"
    using none by (simp add: map_of_group_by_status del: filter_filter)
  finally show ?thesis by (simp only: cnt)
qed

lemma get_stats_dom:
  "dom (get_stats db owner) = {''pending'', ''in_progress'', ''completed'', ''cancelled''}"
proof -
  have "status_value ` fst ` set rs \<subseteq> {''pending'', ''in_progress'', ''completed'', ''cancelled''}"
    for rs :: "(TaskStatus \<times> int) list"
    using status_value_range by blast
  then show ?thesis
    unfolding get_stats_def Let_def fold_stats_dom initial_stats_dom by blast
qed

lemma count_by_status_total:
  "int (length (filter (\<lambda>t. P t \<and> status t = PENDING) rows))
   + int (length (filter (\<lambda>t. P t \<and> status t = IN_PROGRESS) rows))
   + int (length (filter (\<lambda>t. P t \<and> status t = COMPLETED) rows))
   + int (length (filter (\<lambda>t. P t \<and> status t = CANCELLED) rows))
   = int (length (filter P rows))"
proof (induction rows)
  case Nil
  then show ?case by simp
next
  case (Cons t rows)
  then show ?case by (cases "status t") simp_all
qed

text \<open>
  Claim C3. The keys of the dictionary returned by \<open>get_stats\<close> are exactly the four
  status values. Under the value of each status stands the number of stored tasks of the
  owner with that status (0 when there is none), and the four numbers add up to the
  number of tasks of the owner.
\<close>

theorem get_stats_counts:
  "dom (get_stats db owner) = {''pending'', ''in_progress'', ''completed'', ''cancelled''}
   \<and> (\<forall>s. get_stats db owner (status_value s) =
            Some (int (length (filter (\<lambda>t. owner_id t = owner \<and> status t = s) (tasks db)))))
   \<and> (\<exists>p i c x. get_stats db owner ''pending'' = Some p
        \<and> get_stats db owner ''in_progress'' = Some i
        \<and> get_stats db owner ''completed'' = Some c
        \<and> get_stats db owner ''cancelled'' = Some x
        \<and> p + i + c + x = int (length (filter (\<lambda>t. owner_id t = owner) (tasks db))))"
proof (intro conjI allI)
  show "dom (get_stats db owner) = {''pending'', ''in_progress'', ''completed'', ''cancelled''}"
    by (rule get_stats_dom)
  show "get_stats db owner (status_value s) =
            Some (int (length (filter (\<lambda>t. owner_id t = owner \<and> status t = s) (tasks db))))" for s
    by (rule get_stats_lookup)
  show "\<exists>p i c x. get_stats db owner ''pending'' = Some p
        \<and> get_stats db owner ''in_progress'' = Some i
        \<and> get_stats db owner ''completed'' = Some c
        \<and> get_stats db owner ''cancelled'' = Some x
        \<and> p + i + c + x = int (length (filter (\<lambda>t. owner_id t = owner) (tasks db)))"
    using get_stats_lookup [of db owner PENDING] get_stats_lookup [of db owner IN_PROGRESS]
      get_stats_lookup [of db owner COMPLETED] get_stats_lookup [of db owner CANCELLED]
      count_by_status_total [of "\<lambda>t. owner_id t = owner" "tasks db"]
    by (simp only: status_value.simps) blast
qed

text \<open>
  User 1 of the sample database owns one cancelled and two pending tasks; user 3 owns
  none and still gets the four keys.
\<close>

theorem get_stats_counts_witness:
  "get_stats sample_db 1 ''pending'' = Some 2
   \<and> get_stats sample_db 1 ''in_progress'' = Some 0
   \<and> get_stats sample_db 1 ''completed'' = Some 0
   \<and> get_stats sample_db 1 ''cancelled'' = Some 1
   \<and> get_stats sample_db 3 (status_value PENDING) = Some 0
   \<and> dom (get_stats sample_db 3) = {''pending'', ''in_progress'', ''completed'', ''cancelled''}"
proof -
  have vals: "get_stats sample_db 1 ''pending'' = Some 2
     \<and> get_stats sample_db 1 ''in_progress'' = Some 0
     \<and> get_stats sample_db 1 ''completed'' = Some 0
     \<and> get_stats sample_db 1 ''cancelled'' = Some 1
     \<and> get_stats sample_db 3 (status_value PENDING) = Some 0"
    by (simp add: get_stats_def group_by_status_def all_statuses_def sample_db_def
        sample_task_def)
  have keys: "dom (get_stats sample_db 3) = {''pending'', ''in_progress'', ''completed'', ''cancelled''}"
    using get_stats_counts [of sample_db 3] by (rule conjunct1)
  show ?thesis using vals keys by simp
qed

section \<open>authenticate\<close>

text \<open>
  Claim C4. \<open>authenticate\<close> returns a user exactly when the lookup by username finds
  that user and the verification of the supplied password against the user's
  \<open>hashed_password\<close> answers true. When no user has the username, and when the
  verification answers false, the result is the same \<open>None\<close>. The user found is a stored
  user with that username, and the lookup finds none exactly when no stored user has it.
  (A verification that raises is neither case: the exception passes through.)
\<close>

theorem authenticate_result:
  "(authenticate verify_password db name password = Inr (Some user)
      \<longleftrightarrow> get_by_username db name = Some user
          \<and> verify_password password (hashed_password user) = Inr True)
   \<and> (get_by_username db name = None
        \<longrightarrow> authenticate verify_password db name password = Inr None)
   \<and> (get_by_username db name = Some user
        \<and> verify_password password (hashed_password user) = Inr False
        \<longrightarrow> authenticate verify_password db name password = Inr None)
   \<and> (get_by_username db name = Some user \<longrightarrow> user \<in> set (users db) \<and> username user = name)
   \<and> (get_by_username db name = None \<longleftrightarrow> (\<forall>u \<in> set (users db). username u \<noteq> name))"
proof (intro conjI impI)
  show "authenticate verify_password db name password = Inr (Some user)
      \<longleftrightarrow> get_by_username db name = Some user
          \<and> verify_password password (hashed_password user) = Inr True"
    by (auto simp: authenticate_def split: option.splits sum.splits if_splits)
  show "authenticate verify_password db name password = Inr None"
    if "get_by_username db name = None"
    using that by (simp add: authenticate_def)
  show "authenticate verify_password db name password = Inr None"
    if "get_by_username db name = Some user
        \<and> verify_password password (hashed_password user) = Inr False"
    using that by (simp add: authenticate_def)
  show "user \<in> set (users db)" if "get_by_username db name = Some user"
    using that unfolding get_by_username_def by (rule find_key_mem)
  show "username user = name" if "get_by_username db name = Some user"
    using that unfolding get_by_username_def by (rule find_key_eq)
  show "get_by_username db name = None \<longleftrightarrow> (\<forall>u \<in> set (users db). username u \<noteq> name)"
    by (auto simp: get_by_username_def find_None_iff)
qed

text \<open>
  The sample user \<^verbatim>\<open>a\<close> with the right and with a wrong password, and an unknown
  username.
\<close>

theorem authenticate_result_witness:
  "authenticate sample_verify sample_db ''a'' ''password123'' = Inr (Some (sample_user 1 ''a@x.com'' ''a''))
   \<and> get_by_username sample_db ''a'' = Some (sample_user 1 ''a@x.com'' ''a'')
   \<and> sample_verify ''password123'' (hashed_password (sample_user 1 ''a@x.com'' ''a'')) = Inr True
   \<and> sample_verify ''wrongpassword'' (hashed_password (sample_user 1 ''a@x.com'' ''a'')) = Inr False
   \<and> authenticate sample_verify sample_db ''a'' ''wrongpassword'' = Inr None
   \<and> get_by_username sample_db ''zed'' = None
   \<and> authenticate sample_verify sample_db ''zed'' ''password123'' = Inr None"
  using authenticate_result [of sample_verify sample_db "''a''" "''password123''" "sample_user 1 ''a@x.com'' ''a''"]
    authenticate_result [of sample_verify sample_db "''a''" "''wrongpassword''" "sample_user 1 ''a@x.com'' ''a''"]
    authenticate_result [of sample_verify sample_db "''zed''" "''password123''" "sample_user 1 ''a@x.com'' ''a''"]
  by (simp add: get_by_username_def sample_verify_def sample_db_def sample_user_def)

section \<open>TaskService.create\<close>

lemma fold_max_start: "a \<le> fold max ids (a::int)"
proof (induction ids arbitrary: a)
  case Nil
  then show ?case by simp
next
  case (Cons i ids)
  have "a \<le> max i a" by simp
  also have "max i a \<le> fold max ids (max i a)" by (rule Cons.IH)
  finally show ?case by simp
qed

lemma fold_max_upper: "x = a \<or> x \<in> set ids \<Longrightarrow> x \<le> fold max ids (a::int)"
proof (induction ids arbitrary: a)
  case Nil
  then show ?case by simp
next
  case (Cons i ids)
  from Cons.prems consider "x = a" | "x = i" | "x \<in> set ids" by auto
  then show ?case
  proof cases
    case 1
    then show ?thesis using fold_max_start [of a "i # ids"] by simp
  next
    case 2
    have "i \<le> max i a" by simp
    also have "max i a \<le> fold max ids (max i a)" by (rule fold_max_start)
    finally show ?thesis using 2 by simp
  next
    case 3
    then have "x \<le> fold max ids (max i a)" by (intro Cons.IH) simp
    then show ?thesis by simp
  qed
qed

lemma next_id_fresh: "x \<in> set ids \<Longrightarrow> x < next_id ids"
proof (cases ids)
  case Nil
  assume "x \<in> set ids"
  with Nil show ?thesis by simp
next
  case (Cons i rest)
  assume "x \<in> set ids"
  with Cons have "x = i \<or> x \<in> set rest" by simp
  then have "x \<le> fold max rest i" by (rule fold_max_upper)
  with Cons show ?thesis by simp
qed

lemma find_append_new:
  "find P xs = None \<Longrightarrow> P y \<Longrightarrow> find P (xs @ [y]) = Some y"
  by (induction xs) (auto split: if_splits)

lemma find_append_old:
  "find P xs = Some x \<Longrightarrow> find P (xs @ ys) = Some x"
  by (induction xs) (auto split: if_splits)

lemma task_next_id_unused: "task_row db (next_id (map task_id (tasks db))) = None"
proof -
  have "task_id t \<noteq> next_id (map task_id (tasks db))" if "t \<in> set (tasks db)" for t
    using next_id_fresh [of "task_id t" "map task_id (tasks db)"] that by auto
  then show ?thesis by (auto simp: task_row_def find_None_iff)
qed

text \<open>
  Claim C5. For every validated creation input and every owner id, \<open>create\<close> succeeds
  and returns a task with status PENDING and the given \<open>owner_id\<close>, carrying the
  fields of the input. The input type has no status field, so nothing in the input can
  change the status. The task is persisted: its id was unused before, the row with the id
  in the resulting database is the returned task, and the table has grown by exactly
  this row.
\<close>

theorem task_create_pending:
  "\<exists>db' t. task_create now db task_data owner = Inr (db', t)
     \<and> status t = PENDING
     \<and> owner_id t = owner
     \<and> title t = new_title task_data
     \<and> description t = new_description task_data
     \<and> priority t = Some (new_priority task_data)
     \<and> due_date t = new_due_date task_data
     \<and> task_row db (task_id t) = None
     \<and> task_row db' (task_id t) = Some t
     \<and> tasks db' = tasks db @ [t]
     \<and> users db' = users db"
proof -
  define t where "t = \<lparr>task_id = next_id (map task_id (tasks db)),
                     title = new_title task_data,
                     description = new_description task_data,
                     status = PENDING,
                     priority = Some (new_priority task_data),
                     owner_id = owner,
                     created_at = Some now,
                     updated_at = None,
                     due_date = new_due_date task_data\<rparr>"
  define db' where "db' = db\<lparr>tasks := tasks db @ [t]\<rparr>"
  have id: "task_id t = next_id (map task_id (tasks db))" by (simp add: t_def)
  have unused: "task_row db (task_id t) = None"
    unfolding id by (rule task_next_id_unused)
  have stored: "task_row db' (task_id t) = Some t"
    using unused by (simp add: db'_def task_row_def find_append_new)
  have run: "task_create now db task_data owner = Inr (db', t)"
    using stored unfolding task_create_def Let_def task_refresh_def
    by (simp add: db'_def t_def)
  have fields: "status t = PENDING \<and> owner_id t = owner \<and> title t = new_title task_data
     \<and> description t = new_description task_data
     \<and> priority t = Some (new_priority task_data)
     \<and> due_date t = new_due_date task_data"
    by (simp add: t_def)
  have tables: "tasks db' = tasks db @ [t] \<and> users db' = users db"
    by (simp add: db'_def)
  show ?thesis using run fields unused stored tables by blast
qed

text \<open>A new task for user 1 of the sample database, created at time 500, gets id 5.\<close>

theorem task_create_pending_witness:
  "task_create 500 sample_db sample_task_data 1 =
     Inr (sample_db\<lparr>tasks := tasks sample_db @
            [\<lparr>task_id = 5, title = ''T1'', description = None, status = PENDING,
              priority = Some 3, owner_id = 1, created_at = Some 500, updated_at = None,
              due_date = None\<rparr>]\<rparr>,
          \<lparr>task_id = 5, title = ''T1'', description = None, status = PENDING,
           priority = Some 3, owner_id = 1, created_at = Some 500, updated_at = None,
           due_date = None\<rparr>)"
  using task_create_pending [of 500 sample_db sample_task_data 1]
  by (simp add: task_create_def task_refresh_def task_row_def sample_db_def
      sample_task_def sample_task_data_def Let_def)

section \<open>update\<close>

lemma user_row_key: "user_row db uid = Some u \<Longrightarrow> user_id u = uid"
  unfolding user_row_def by (rule find_key_eq)

lemma user_write_id: "user_id (user_write now assigned r) = user_id r"
  by (simp add: user_write_def)

lemma user_write_hashed_password:
  "hashed_password (user_write now assigned r) = hashed_password r"
  by (simp add: user_write_def)

lemma user_commit_cases:
  assumes "user_commit now db loaded assigned = Inr db'"
  shows "db' = (if assigned = loaded then db
                else db\<lparr>users := map (\<lambda>r. if user_id r = user_id loaded
                                         then user_write now assigned r else r) (users db)\<rparr>)"
  using assms unfolding user_commit_def by (simp split: if_splits)

lemma user_commit_get:
  assumes found: "user_row db uid = Some loaded"
    and ok: "user_commit now db loaded assigned = Inr db'"
  shows "user_row db' uid =
           Some (if assigned = loaded then loaded else user_write now assigned loaded)"
proof -
  have k: "user_id loaded = uid"
    using found by (rule user_row_key)
  have f: "find (\<lambda>r. user_id r = uid) (users db) = Some loaded"
    using found by (simp only: user_row_def)
  show ?thesis
    unfolding user_commit_cases [OF ok] user_row_def
    by (simp add: find_map_write [of user_id, OF user_write_id] f k)
qed

lemma user_commit_get_other:
  assumes found: "user_row db uid = Some loaded"
    and ok: "user_commit now db loaded assigned = Inr db'"
    and other: "other \<noteq> uid"
  shows "user_row db' other = user_row db other"
proof -
  have k: "user_id loaded = uid"
    using found by (rule user_row_key)
  have "map_option (\<lambda>r. if user_id r = uid then user_write now assigned r else r)
          (find (\<lambda>r. user_id r = other) (users db)) = find (\<lambda>r. user_id r = other) (users db)"
  proof (cases "find (\<lambda>r. user_id r = other) (users db)")
    case None
    then show ?thesis by simp
  next
    case (Some r)
    then have "user_id r = other" by (rule find_key_eq)
    with other Some show ?thesis by simp
  qed
  then show ?thesis
    unfolding user_commit_cases [OF ok] user_row_def
    by (simp add: find_map_write [of user_id, OF user_write_id] k)
qed

lemma user_commit_frame:
  assumes ok: "user_commit now db loaded assigned = Inr db'"
  shows "tasks db' = tasks db"
    and "map user_id (users db') = map user_id (users db)"
    and "map hashed_password (users db') = map hashed_password (users db)"
  unfolding user_commit_cases [OF ok]
  by (simp_all add: comp_def user_write_id user_write_hashed_password
      if_distrib [of user_id] if_distrib [of hashed_password] cong: if_cong)

lemma user_assigned_same:
  "(u\<lparr>email := em, username := un, full_name := fn, is_active := ia\<rparr> = u)
     = (em = email u \<and> un = username u \<and> fn = full_name u \<and> ia = is_active u)"
proof
  assume eq: "u\<lparr>email := em, username := un, full_name := fn, is_active := ia\<rparr> = u"
  have "email (u\<lparr>email := em, username := un, full_name := fn, is_active := ia\<rparr>) = email u"
    and "username (u\<lparr>email := em, username := un, full_name := fn, is_active := ia\<rparr>) = username u"
    and "full_name (u\<lparr>email := em, username := un, full_name := fn, is_active := ia\<rparr>) = full_name u"
    and "is_active (u\<lparr>email := em, username := un, full_name := fn, is_active := ia\<rparr>) = is_active u"
    unfolding eq by (rule refl)+
  then show "em = email u \<and> un = username u \<and> fn = full_name u \<and> ia = is_active u"
    by simp
next
  assume a: "em = email u \<and> un = username u \<and> fn = full_name u \<and> ia = is_active u"
  have "u\<lparr>email := email u, username := username u, full_name := full_name u,
          is_active := is_active u\<rparr> = u" by simp
  then show "u\<lparr>email := em, username := un, full_name := fn, is_active := ia\<rparr> = u"
    using a by (simp only:)
qed

lemma user_update_found:
  assumes rng: "sqlite_integer uid"
    and found: "user_row db uid = Some u"
    and em: "set_required (upd_email user_data) (email u) = Inr em"
    and un: "set_required (upd_username user_data) (username u) = Inr un"
    and ok: "user_commit now db u
               (u\<lparr>email := em, username := un,
                  full_name := set_nullable (upd_full_name user_data) (full_name u),
                  is_active := set_nullable (upd_is_active user_data) (is_active u)\<rparr>) = Inr db'"
  shows "user_update now db uid user_data =
           Inr (db', Some (if u\<lparr>email := em, username := un,
                  full_name := set_nullable (upd_full_name user_data) (full_name u),
                  is_active := set_nullable (upd_is_active user_data) (is_active u)\<rparr> = u then u
                 else user_write now (u\<lparr>email := em, username := un,
                  full_name := set_nullable (upd_full_name user_data) (full_name u),
                  is_active := set_nullable (upd_is_active user_data) (is_active u)\<rparr>) u))"
  using rng
  by (simp only: user_update_def user_get_by_id_def user_refresh_def Let_def found em un ok
      user_commit_get [OF found ok] if_True sum.case option.case)


lemma user_update_merge:
  assumes rng: "sqlite_integer uid"
    and found: "user_row db uid = Some u"
    and e_nn: "upd_email user_data \<noteq> Given None"
    and n_nn: "upd_username user_data \<noteq> Given None"
    and e_free: "\<forall>v. upd_email user_data = Given (Some v) \<and> v \<noteq> email u
                   \<longrightarrow> \<not> email_taken db uid v"
    and n_free: "\<forall>v. upd_username user_data = Given (Some v) \<and> v \<noteq> username u
                   \<longrightarrow> \<not> username_taken db uid v"
  shows "\<exists>db' u'. user_update now db uid user_data = Inr (db', Some u')
      \<and> user_get_by_id db' uid = Inr (Some u')
      \<and> email u' = (case upd_email user_data of Given (Some v) \<Rightarrow> v | _ \<Rightarrow> email u)
      \<and> username u' = (case upd_username user_data of Given (Some v) \<Rightarrow> v | _ \<Rightarrow> username u)
      \<and> full_name u' = (case upd_full_name user_data of Given v \<Rightarrow> v | Unset \<Rightarrow> full_name u)
      \<and> is_active u' = (case upd_is_active user_data of Given v \<Rightarrow> v | Unset \<Rightarrow> is_active u)
      \<and> user_id u' = user_id u
      \<and> hashed_password u' = hashed_password u
      \<and> is_superuser u' = is_superuser u
      \<and> user_created_at u' = user_created_at u
      \<and> user_updated_at u' =
          (if email u' = email u \<and> username u' = username u
              \<and> full_name u' = full_name u \<and> is_active u' = is_active u
           then user_updated_at u else Some now)
      \<and> tasks db' = tasks db
      \<and> (\<forall>other. other \<noteq> uid \<longrightarrow> user_row db' other = user_row db other)"
proof -
  define em where "em = (case upd_email user_data of Given (Some v) \<Rightarrow> v | _ \<Rightarrow> email u)"
  define un where "un = (case upd_username user_data of Given (Some v) \<Rightarrow> v | _ \<Rightarrow> username u)"
  define fn where "fn = set_nullable (upd_full_name user_data) (full_name u)"
  define ia where "ia = set_nullable (upd_is_active user_data) (is_active u)"
  define assigned where "assigned = u\<lparr>email := em, username := un, full_name := fn, is_active := ia\<rparr>"
  define u' where "u' = (if assigned = u then u else user_write now assigned u)"
  define db' where "db' = (if assigned = u then db
                else db\<lparr>users := map (\<lambda>r. if user_id r = user_id u
                                         then user_write now assigned r else r) (users db)\<rparr>)"
  have k: "user_id u = uid" using found by (rule user_row_key)
  have em: "set_required (upd_email user_data) (email u) = Inr em"
    using e_nn by (auto simp: em_def split: field.splits option.splits)
  have un: "set_required (upd_username user_data) (username u) = Inr un"
    using n_nn by (auto simp: un_def split: field.splits option.splits)
  have fn: "fn = (case upd_full_name user_data of Given v \<Rightarrow> v | Unset \<Rightarrow> full_name u)"
    by (simp add: fn_def split: field.splits)
  have ia: "ia = (case upd_is_active user_data of Given v \<Rightarrow> v | Unset \<Rightarrow> is_active u)"
    by (simp add: ia_def split: field.splits)
  have e_ok: "\<not> (em \<noteq> email u \<and> email_taken db uid em)"
    using e_free by (auto simp: em_def split: field.splits option.splits)
  have n_ok: "\<not> (un \<noteq> username u \<and> username_taken db uid un)"
    using n_free by (auto simp: un_def split: field.splits option.splits)
  have a_em: "email assigned = em" and a_un: "username assigned = un"
    by (simp_all add: assigned_def)
  have ok: "user_commit now db u assigned = Inr db'"
    unfolding user_commit_def db'_def a_em a_un k using e_ok n_ok by auto
  have run: "user_update now db uid user_data = Inr (db', Some u')"
    unfolding u'_def assigned_def fn_def ia_def
    by (rule user_update_found [OF rng found em un ok [unfolded assigned_def fn_def ia_def]])
  have "user_row db' uid = Some u'"
    unfolding u'_def by (rule user_commit_get [OF found ok])
  then have stored: "user_get_by_id db' uid = Inr (Some u')"
    using rng by (simp add: user_get_by_id_def)
  have same: "assigned = u \<longleftrightarrow> em = email u \<and> un = username u \<and> fn = full_name u \<and> ia = is_active u"
    unfolding assigned_def by (rule user_assigned_same)
  have fields: "email u' = em \<and> username u' = un \<and> full_name u' = fn \<and> is_active u' = ia
      \<and> user_id u' = user_id u \<and> hashed_password u' = hashed_password u
      \<and> is_superuser u' = is_superuser u \<and> user_created_at u' = user_created_at u
      \<and> user_updated_at u' = (if assigned = u then user_updated_at u else Some now)"
  proof (cases "assigned = u")
    case True
    then have "u' = u" by (simp add: u'_def)
    then show ?thesis using True same by simp
  next
    case False
    then have "u' = user_write now assigned u" by (simp add: u'_def)
    then show ?thesis using False by (simp add: user_write_def assigned_def)
  qed
  have stamp: "user_updated_at u' =
          (if email u' = email u \<and> username u' = username u
              \<and> full_name u' = full_name u \<and> is_active u' = is_active u
           then user_updated_at u else Some now)"
    using fields same by simp
  have frame: "tasks db' = tasks db"
    by (rule user_commit_frame(1) [OF ok])
  have others: "\<forall>other. other \<noteq> uid \<longrightarrow> user_row db' other = user_row db other"
    using user_commit_get_other [OF found ok] by blast
  show ?thesis
    using run stored fields stamp frame others
    unfolding em_def [symmetric] un_def [symmetric] fn [symmetric] ia [symmetric]
    by blast
qed


lemma task_assigned_same:
  "(t\<lparr>title := ttl, description := d, status := st, priority := p, due_date := dd\<rparr> = t)
     = (ttl = title t \<and> d = description t \<and> st = status t \<and> p = priority t \<and> dd = due_date t)"
proof
  assume eq: "t\<lparr>title := ttl, description := d, status := st, priority := p, due_date := dd\<rparr> = t"
  have "title (t\<lparr>title := ttl, description := d, status := st, priority := p, due_date := dd\<rparr>) = title t"
    and "description (t\<lparr>title := ttl, description := d, status := st, priority := p, due_date := dd\<rparr>) = description t"
    and "status (t\<lparr>title := ttl, description := d, status := st, priority := p, due_date := dd\<rparr>) = status t"
    and "priority (t\<lparr>title := ttl, description := d, status := st, priority := p, due_date := dd\<rparr>) = priority t"
    and "due_date (t\<lparr>title := ttl, description := d, status := st, priority := p, due_date := dd\<rparr>) = due_date t"
    unfolding eq by (rule refl)+
  then show "ttl = title t \<and> d = description t \<and> st = status t \<and> p = priority t \<and> dd = due_date t"
    by simp
next
  assume a: "ttl = title t \<and> d = description t \<and> st = status t \<and> p = priority t \<and> dd = due_date t"
  have "t\<lparr>title := title t, description := description t, status := status t,
          priority := priority t, due_date := due_date t\<rparr> = t" by simp
  then show "t\<lparr>title := ttl, description := d, status := st, priority := p, due_date := dd\<rparr> = t"
    using a by (simp only:)
qed

lemma task_update_found:
  assumes rng: "sqlite_integer tid"
    and found: "task_row db tid = Some t"
    and ttl: "set_required (upd_title task_data) (title t) = Inr ttl"
    and st: "set_required (upd_status task_data) (status t) = Inr st"
  shows "task_update now db tid task_data =
           Inr (task_commit now db t
                  (t\<lparr>title := ttl,
                     description := set_nullable (upd_description task_data) (description t),
                     status := st,
                     priority := set_nullable (upd_priority task_data) (priority t),
                     due_date := set_nullable (upd_due_date task_data) (due_date t)\<rparr>),
                Some (if t\<lparr>title := ttl,
                     description := set_nullable (upd_description task_data) (description t),
                     status := st,
                     priority := set_nullable (upd_priority task_data) (priority t),
                     due_date := set_nullable (upd_due_date task_data) (due_date t)\<rparr> = t then t
                  else task_write now (t\<lparr>title := ttl,
                     description := set_nullable (upd_description task_data) (description t),
                     status := st,
                     priority := set_nullable (upd_priority task_data) (priority t),
                     due_date := set_nullable (upd_due_date task_data) (due_date t)\<rparr>) t))"
  using rng
  by (simp only: task_update_def task_get_by_id_def task_refresh_def Let_def found ttl st
      task_commit_get [OF found] if_True sum.case option.case)

lemma task_update_merge:
  assumes rng: "sqlite_integer tid"
    and found: "task_row db tid = Some t"
    and t_nn: "upd_title task_data \<noteq> Given None"
    and s_nn: "upd_status task_data \<noteq> Given None"
  shows "\<exists>db' t'. task_update now db tid task_data = Inr (db', Some t')
      \<and> task_get_by_id db' tid = Inr (Some t')
      \<and> title t' = (case upd_title task_data of Given (Some v) \<Rightarrow> v | _ \<Rightarrow> title t)
      \<and> description t' = (case upd_description task_data of Given v \<Rightarrow> v | Unset \<Rightarrow> description t)
      \<and> status t' = (case upd_status task_data of Given (Some v) \<Rightarrow> v | _ \<Rightarrow> status t)
      \<and> priority t' = (case upd_priority task_data of Given v \<Rightarrow> v | Unset \<Rightarrow> priority t)
      \<and> due_date t' = (case upd_due_date task_data of Given v \<Rightarrow> v | Unset \<Rightarrow> due_date t)
      \<and> task_id t' = task_id t
      \<and> owner_id t' = owner_id t
      \<and> created_at t' = created_at t
      \<and> updated_at t' =
          (if title t' = title t \<and> description t' = description t \<and> status t' = status t
              \<and> priority t' = priority t \<and> due_date t' = due_date t
           then updated_at t else Some now)
      \<and> users db' = users db
      \<and> (\<forall>other. other \<noteq> tid \<longrightarrow> task_row db' other = task_row db other)"
proof -
  define ttl where "ttl = (case upd_title task_data of Given (Some v) \<Rightarrow> v | _ \<Rightarrow> title t)"
  define st where "st = (case upd_status task_data of Given (Some v) \<Rightarrow> v | _ \<Rightarrow> status t)"
  define d where "d = set_nullable (upd_description task_data) (description t)"
  define p where "p = set_nullable (upd_priority task_data) (priority t)"
  define dd where "dd = set_nullable (upd_due_date task_data) (due_date t)"
  define assigned where
    "assigned = t\<lparr>title := ttl, description := d, status := st, priority := p, due_date := dd\<rparr>"
  define t' where "t' = (if assigned = t then t else task_write now assigned t)"
  define db' where "db' = task_commit now db t assigned"
  have ttl: "set_required (upd_title task_data) (title t) = Inr ttl"
    using t_nn by (auto simp: ttl_def split: field.splits option.splits)
  have st: "set_required (upd_status task_data) (status t) = Inr st"
    using s_nn by (auto simp: st_def split: field.splits option.splits)
  have d: "d = (case upd_description task_data of Given v \<Rightarrow> v | Unset \<Rightarrow> description t)"
    by (simp add: d_def split: field.splits)
  have p: "p = (case upd_priority task_data of Given v \<Rightarrow> v | Unset \<Rightarrow> priority t)"
    by (simp add: p_def split: field.splits)
  have dd: "dd = (case upd_due_date task_data of Given v \<Rightarrow> v | Unset \<Rightarrow> due_date t)"
    by (simp add: dd_def split: field.splits)
  have run: "task_update now db tid task_data = Inr (db', Some t')"
    unfolding t'_def db'_def assigned_def d_def p_def dd_def
    by (rule task_update_found [OF rng found ttl st])
  have "task_row db' tid = Some t'"
    unfolding t'_def db'_def by (rule task_commit_get [OF found])
  then have stored: "task_get_by_id db' tid = Inr (Some t')"
    using rng by (simp add: task_get_by_id_def)
  have same: "assigned = t \<longleftrightarrow>
      ttl = title t \<and> d = description t \<and> st = status t \<and> p = priority t \<and> dd = due_date t"
    unfolding assigned_def by (rule task_assigned_same)
  have fields: "title t' = ttl \<and> description t' = d \<and> status t' = st \<and> priority t' = p
      \<and> due_date t' = dd \<and> task_id t' = task_id t \<and> owner_id t' = owner_id t
      \<and> created_at t' = created_at t
      \<and> updated_at t' = (if assigned = t then updated_at t else Some now)"
  proof (cases "assigned = t")
    case True
    then have "t' = t" by (simp add: t'_def)
    then show ?thesis using True same by simp
  next
    case False
    then have "t' = task_write now assigned t" by (simp add: t'_def)
    then show ?thesis using False by (simp add: task_write_def assigned_def)
  qed
  have stamp: "updated_at t' =
          (if title t' = title t \<and> description t' = description t \<and> status t' = status t
              \<and> priority t' = priority t \<and> due_date t' = due_date t
           then updated_at t else Some now)"
    using fields same by simp
  have frame: "users db' = users db"
    unfolding db'_def by (rule task_commit_users)
  have others: "\<forall>other. other \<noteq> tid \<longrightarrow> task_row db' other = task_row db other"
    unfolding db'_def using task_commit_get_other [OF found] by blast
  show ?thesis
    using run stored fields stamp frame others
    unfolding ttl_def [symmetric] st_def [symmetric] d [symmetric] p [symmetric] dd [symmetric]
    by blast
qed

lemma user_update_absent:
  "sqlite_integer uid \<Longrightarrow> user_row db uid = None
     \<Longrightarrow> user_update now db uid user_data = Inr (db, None)"
  by (simp add: user_update_def user_get_by_id_def)

lemma task_update_absent:
  "sqlite_integer tid \<Longrightarrow> task_row db tid = None
     \<Longrightarrow> task_update now db tid task_data = Inr (db, None)"
  by (simp add: task_update_def task_get_by_id_def)

text \<open>
  Claim C6, as amended. For an id within the range of an SQLite INTEGER: \<open>update\<close>
  returns \<open>None\<close>, and leaves the database as it is, when no record has the id. For a
  stored record it succeeds whenever the partial update supplies no null for a NOT NULL
  column (\<open>email\<close>, \<open>username\<close>; \<open>title\<close>, \<open>status\<close>) and, for a user, no new \<open>email\<close>
  or \<open>username\<close> that another user holds. Then every supplied field has its supplied
  value and every field that was not supplied keeps its value, with one exception:
  \<open>updated_at\<close> is set to the current time exactly when a supplied value differs from
  the stored one. The returned record is the stored one, and the other records are
  untouched.
\<close>

theorem update_merges_supplied_fields:
  "(sqlite_integer uid \<and> user_row db uid = None
      \<longrightarrow> user_update now db uid user_data = Inr (db, None))
   \<and> (sqlite_integer tid \<and> task_row db tid = None
      \<longrightarrow> task_update now db tid task_data = Inr (db, None))
   \<and> (\<forall>u. sqlite_integer uid
          \<and> user_row db uid = Some u
          \<and> upd_email user_data \<noteq> Given None
          \<and> upd_username user_data \<noteq> Given None
          \<and> (\<forall>v. upd_email user_data = Given (Some v) \<and> v \<noteq> email u
                 \<longrightarrow> \<not> email_taken db uid v)
          \<and> (\<forall>v. upd_username user_data = Given (Some v) \<and> v \<noteq> username u
                 \<longrightarrow> \<not> username_taken db uid v)
        \<longrightarrow> (\<exists>db' u'. user_update now db uid user_data = Inr (db', Some u')
      \<and> user_get_by_id db' uid = Inr (Some u')
      \<and> email u' = (case upd_email user_data of Given (Some v) \<Rightarrow> v | _ \<Rightarrow> email u)
      \<and> username u' = (case upd_username user_data of Given (Some v) \<Rightarrow> v | _ \<Rightarrow> username u)
      \<and> full_name u' = (case upd_full_name user_data of Given v \<Rightarrow> v | Unset \<Rightarrow> full_name u)
      \<and> is_active u' = (case upd_is_active user_data of Given v \<Rightarrow> v | Unset \<Rightarrow> is_active u)
      \<and> user_id u' = user_id u
      \<and> hashed_password u' = hashed_password u
      \<and> is_superuser u' = is_superuser u
      \<and> user_created_at u' = user_created_at u
      \<and> user_updated_at u' =
          (if email u' = email u \<and> username u' = username u
              \<and> full_name u' = full_name u \<and> is_active u' = is_active u
           then user_updated_at u else Some now)
      \<and> tasks db' = tasks db
      \<and> (\<forall>other. other \<noteq> uid \<longrightarrow> user_row db' other = user_row db other)))
   \<and> (\<forall>t. sqlite_integer tid
          \<and> task_row db tid = Some t
          \<and> upd_title task_data \<noteq> Given None
          \<and> upd_status task_data \<noteq> Given None
        \<longrightarrow> (\<exists>db' t'. task_update now db tid task_data = Inr (db', Some t')
      \<and> task_get_by_id db' tid = Inr (Some t')
      \<and> title t' = (case upd_title task_data of Given (Some v) \<Rightarrow> v | _ \<Rightarrow> title t)
      \<and> description t' = (case upd_description task_data of Given v \<Rightarrow> v | Unset \<Rightarrow> description t)
      \<and> status t' = (case upd_status task_data of Given (Some v) \<Rightarrow> v | _ \<Rightarrow> status t)
      \<and> priority t' = (case upd_priority task_data of Given v \<Rightarrow> v | Unset \<Rightarrow> priority t)
      \<and> due_date t' = (case upd_due_date task_data of Given v \<Rightarrow> v | Unset \<Rightarrow> due_date t)
      \<and> task_id t' = task_id t
      \<and> owner_id t' = owner_id t
      \<and> created_at t' = created_at t
      \<and> updated_at t' =
          (if title t' = title t \<and> description t' = description t \<and> status t' = status t
              \<and> priority t' = priority t \<and> due_date t' = due_date t
           then updated_at t else Some now)
      \<and> users db' = users db
      \<and> (\<forall>other. other \<noteq> tid \<longrightarrow> task_row db' other = task_row db other)))"
  apply (intro conjI allI impI)
     apply (elim conjE)
     apply (erule (1) user_update_absent)
    apply (elim conjE)
    apply (erule (1) task_update_absent)
   apply (elim conjE)
   apply (rule user_update_merge; assumption)
  apply (elim conjE)
  apply (rule task_update_merge; assumption)
  done

text \<open>
  In the sample database: user 1 gets a full name, task 2 a new title and priority, both
  at time 900; id 7 is stored in neither table.
\<close>

theorem update_merges_supplied_fields_witness:
  "sqlite_integer 1 \<and> sqlite_integer 2 \<and> sqlite_integer 7
   \<and> user_row sample_db 1 = Some (sample_user 1 ''a@x.com'' ''a'')
   \<and> upd_email sample_rename \<noteq> Given None \<and> upd_username sample_rename \<noteq> Given None
   \<and> user_update 900 sample_db 1 sample_rename =
       Inr (sample_db\<lparr>users :=
              [(sample_user 1 ''a@x.com'' ''a'')\<lparr>full_name := Some ''Ann'',
                                                 user_updated_at := Some 900\<rparr>,
               sample_user 2 ''b@x.com'' ''b'', sample_user 3 ''c@x.com'' ''c'']\<rparr>,
            Some ((sample_user 1 ''a@x.com'' ''a'')\<lparr>full_name := Some ''Ann'',
                                                     user_updated_at := Some 900\<rparr>))
   \<and> task_row sample_db 2 = Some (sample_task 2 PENDING 1 200)
   \<and> upd_title sample_retitle \<noteq> Given None \<and> upd_status sample_retitle \<noteq> Given None
   \<and> task_update 900 sample_db 2 sample_retitle =
       Inr (sample_db\<lparr>tasks :=
              [sample_task 1 CANCELLED 1 100,
               (sample_task 2 PENDING 1 200)\<lparr>title := ''Updated Title'', priority := Some 5,
                                              updated_at := Some 900\<rparr>,
               sample_task 3 PENDING 1 300, sample_task 4 COMPLETED 2 150]\<rparr>,
            Some ((sample_task 2 PENDING 1 200)\<lparr>title := ''Updated Title'', priority := Some 5,
                                                  updated_at := Some 900\<rparr>))
   \<and> user_row sample_db 7 = None
   \<and> user_update 900 sample_db 7 sample_rename = Inr (sample_db, None)
   \<and> task_row sample_db 7 = None
   \<and> task_update 900 sample_db 7 sample_retitle = Inr (sample_db, None)"
  using update_merges_supplied_fields [of 1 sample_db 900 sample_rename 2 sample_retitle]
    update_merges_supplied_fields [of 7 sample_db 900 sample_rename 7 sample_retitle]
  by (simp add: user_update_def user_get_by_id_def user_row_def user_refresh_def
      user_commit_def user_write_def email_taken_def username_taken_def task_update_def
      task_get_by_id_def task_row_def task_refresh_def task_commit_def task_write_def
      sqlite_integer_def sample_db_def sample_user_def sample_task_def sample_rename_def
      sample_retitle_def Let_def)

text \<open>
  The claim as it was stated fails in the sample database. A partial update that supplies
  only \<open>full_name\<close> also changes \<open>updated_at\<close>, a field it does not hold, from NULL to
  the current time. A partial update that supplies a null \<open>email\<close>, or the \<open>email\<close> of
  another user, does not set the field to the supplied value: the commit is rejected. And
  for the id \<open>2^63\<close>, which no record has, \<open>update\<close> raises instead of returning \<open>None\<close>.
\<close>

theorem update_only_supplied_fields_counterexample:
  "user_row sample_db 1 = Some (sample_user 1 ''a@x.com'' ''a'')
   \<and> user_updated_at (sample_user 1 ''a@x.com'' ''a'') = None
   \<and> user_update 900 sample_db 1 sample_rename =
       Inr (sample_db\<lparr>users :=
              [(sample_user 1 ''a@x.com'' ''a'')\<lparr>full_name := Some ''Ann'',
                                                 user_updated_at := Some 900\<rparr>,
               sample_user 2 ''b@x.com'' ''b'', sample_user 3 ''c@x.com'' ''c'']\<rparr>,
            Some ((sample_user 1 ''a@x.com'' ''a'')\<lparr>full_name := Some ''Ann'',
                                                     user_updated_at := Some 900\<rparr>))
   \<and> user_updated_at ((sample_user 1 ''a@x.com'' ''a'')\<lparr>full_name := Some ''Ann'',
                                                          user_updated_at := Some 900\<rparr>)
       \<noteq> user_updated_at (sample_user 1 ''a@x.com'' ''a'')
   \<and> user_update 900 sample_db 1 sample_null_email = Inl IntegrityError
   \<and> user_update 900 sample_db 1 sample_taken_email = Inl IntegrityError
   \<and> user_row sample_db 9223372036854775808 = None
   \<and> user_update 900 sample_db 9223372036854775808 sample_rename = Inl OverflowError
   \<and> task_row sample_db 9223372036854775808 = None
   \<and> task_update 900 sample_db 9223372036854775808 sample_retitle = Inl OverflowError"
  by (simp add: user_update_def user_get_by_id_def user_row_def user_refresh_def
      user_commit_def user_write_def email_taken_def username_taken_def task_update_def
      task_get_by_id_def task_row_def sqlite_integer_def sample_db_def sample_user_def
      sample_task_def sample_rename_def sample_null_email_def sample_taken_email_def Let_def)

section \<open>UserService.update and the password\<close>

text \<open>
  Claim C10. \<open>UserUpdate\<close> holds no password field, and the UPDATE statement of
  \<open>update\<close> names no password column: whenever \<open>update\<close> returns, every stored user has
  the \<open>hashed_password\<close> it had before (the table holds the same ids with the same
  digests, row by row), and a returned user is the stored user of that id with the
  digest unchanged. When \<open>update\<close> raises, nothing is written at all.
\<close>

theorem user_update_keeps_hashed_password:
  assumes run: "user_update now db uid user_data = Inr (db', r)"
  shows "map user_id (users db') = map user_id (users db)
     \<and> map hashed_password (users db') = map hashed_password (users db)
     \<and> (\<forall>u'. r = Some u' \<longrightarrow>
           user_get_by_id db' uid = Inr (Some u')
           \<and> (\<exists>u. user_get_by_id db uid = Inr (Some u)
                  \<and> hashed_password u' = hashed_password u))"
proof -
  have rng: "sqlite_integer uid"
    using run by (auto simp: user_update_def user_get_by_id_def split: if_splits)
  then have lookup: "user_get_by_id db uid = Inr (user_row db uid)"
    and lookup': "user_get_by_id db' uid = Inr (user_row db' uid)"
    by (simp_all add: user_get_by_id_def)
  show ?thesis
  proof (cases "user_row db uid")
    case None
    then have "db' = db" and "r = None"
      using run lookup by (simp_all add: user_update_def)
    then show ?thesis by simp
  next
    case (Some u)
    from run Some lookup obtain em un u'' where
      ok: "user_commit now db u
             (u\<lparr>email := em, username := un,
                full_name := set_nullable (upd_full_name user_data) (full_name u),
                is_active := set_nullable (upd_is_active user_data) (is_active u)\<rparr>) = Inr db'"
      and rf: "user_refresh db' uid = Inr u''"
      and r: "r = Some u''"
      by (auto simp: user_update_def Let_def split: sum.splits)
    let ?a = "u\<lparr>email := em, username := un,
                full_name := set_nullable (upd_full_name user_data) (full_name u),
                is_active := set_nullable (upd_is_active user_data) (is_active u)\<rparr>"
    let ?u' = "if ?a = u then u else user_write now ?a u"
    have get: "user_row db' uid = Some ?u'"
      by (rule user_commit_get [OF Some ok])
    then have "user_refresh db' uid = Inr ?u'" by (simp add: user_refresh_def)
    with rf r have res: "r = Some ?u'" by simp
    have pw: "hashed_password ?u' = hashed_password u"
      by (simp add: user_write_hashed_password)
    show ?thesis
      using user_commit_frame(2,3) [OF ok] res get pw Some lookup lookup' by auto
  qed
qed

text \<open>Giving user 1 of the sample database a full name leaves all three digests as they were.\<close>

theorem user_update_keeps_hashed_password_witness:
  "user_update 900 sample_db 1 sample_rename =
       Inr (sample_db\<lparr>users :=
              [(sample_user 1 ''a@x.com'' ''a'')\<lparr>full_name := Some ''Ann'',
                                                 user_updated_at := Some 900\<rparr>,
               sample_user 2 ''b@x.com'' ''b'', sample_user 3 ''c@x.com'' ''c'']\<rparr>,
            Some ((sample_user 1 ''a@x.com'' ''a'')\<lparr>full_name := Some ''Ann'',
                                                     user_updated_at := Some 900\<rparr>))
   \<and> map hashed_password (users sample_db) = [''$2b$12$digest'', ''$2b$12$digest'', ''$2b$12$digest'']
   \<and> hashed_password ((sample_user 1 ''a@x.com'' ''a'')\<lparr>full_name := Some ''Ann'',
                                                           user_updated_at := Some 900\<rparr>)
       = ''$2b$12$digest''"
proof -
  have run: "user_update 900 sample_db 1 sample_rename =
       Inr (sample_db\<lparr>users :=
              [(sample_user 1 ''a@x.com'' ''a'')\<lparr>full_name := Some ''Ann'',
                                                 user_updated_at := Some 900\<rparr>,
               sample_user 2 ''b@x.com'' ''b'', sample_user 3 ''c@x.com'' ''c'']\<rparr>,
            Some ((sample_user 1 ''a@x.com'' ''a'')\<lparr>full_name := Some ''Ann'',
                                                     user_updated_at := Some 900\<rparr>))"
    by (simp add: user_update_def user_get_by_id_def user_row_def sqlite_integer_def user_refresh_def user_commit_def
        user_write_def email_taken_def username_taken_def sample_db_def sample_user_def
        sample_rename_def Let_def)
  show ?thesis
    using run user_update_keeps_hashed_password [OF run]
    by (simp add: sample_db_def sample_user_def)
qed

section \<open>delete\<close>

lemma find_filter_removed: "find (\<lambda>r. key r = k) (filter (\<lambda>r. key r \<noteq> k) xs) = None"
  by (induction xs) simp_all

lemma find_filter_other:
  "j \<noteq> k \<Longrightarrow> find (\<lambda>r. key r = j) (filter (\<lambda>r. key r \<noteq> k) xs) = find (\<lambda>r. key r = j) xs"
  by (induction xs) auto

lemma task_delete_result:
  assumes "sqlite_integer tid"
  shows "(task_row db tid = None \<longrightarrow> task_delete db tid = Inr (db, False))
   \<and> (\<forall>t. task_row db tid = Some t
        \<longrightarrow> (\<exists>db'. task_delete db tid = Inr (db', True)
               \<and> task_row db' tid = None
               \<and> (\<forall>other. other \<noteq> tid \<longrightarrow> task_row db' other = task_row db other)
               \<and> users db' = users db))"
proof (cases "task_row db tid")
  case None
  then show ?thesis using assms by (simp add: task_delete_def task_get_by_id_def)
next
  case (Some t)
  then have k: "task_id t = tid" by (rule task_row_key)
  show ?thesis using Some k assms
    by (simp add: task_delete_def task_get_by_id_def task_row_def find_filter_removed
        find_filter_other)
qed

lemma user_delete_result:
  assumes "sqlite_integer uid"
  shows "(user_row db uid = None \<longrightarrow> user_delete db uid = Inr (db, False))
   \<and> (\<forall>u. user_row db uid = Some u \<and> \<not> list_ex (\<lambda>t. owner_id t = uid) (tasks db)
        \<longrightarrow> (\<exists>db'. user_delete db uid = Inr (db', True)
               \<and> user_row db' uid = None
               \<and> (\<forall>other. other \<noteq> uid \<longrightarrow> user_row db' other = user_row db other)
               \<and> tasks db' = tasks db))
   \<and> (\<forall>u. user_row db uid = Some u \<and> list_ex (\<lambda>t. owner_id t = uid) (tasks db)
        \<longrightarrow> user_delete db uid = Inl IntegrityError)"
proof (cases "user_row db uid")
  case None
  then show ?thesis using assms by (simp add: user_delete_def user_get_by_id_def)
next
  case (Some u)
  then have k: "user_id u = uid" by (rule user_row_key)
  show ?thesis using Some k assms
    by (simp add: user_delete_def user_get_by_id_def user_row_def find_filter_removed
        find_filter_other)
qed

text \<open>
  Claim C8, at the input where the code departs from it. User 1 of the sample database
  is stored and owns tasks. \<open>UserService.delete\<close> neither returns true nor removes the
  user: the commit raises, because detaching the user's tasks writes NULL into the NOT
  NULL column \<^verbatim>\<open>tasks.owner_id\<close>. (For tasks, and for users that own no task, delete
  behaves as claimed on ids within the range of an SQLite INTEGER: \<open>task_delete_result\<close>,
  \<open>user_delete_result\<close>.)
\<close>

theorem user_delete_owner_fails:
  "user_get_by_id sample_db 1 = Inr (Some (sample_user 1 ''a@x.com'' ''a''))
   \<and> list_ex (\<lambda>t. owner_id t = 1) (tasks sample_db)
   \<and> user_delete sample_db 1 = Inl IntegrityError"
  by (simp add: user_delete_def user_get_by_id_def user_row_def sqlite_integer_def
      sample_db_def sample_user_def sample_task_def)

section \<open>UserService.create\<close>

text \<open>
  When the lookups by email and by username find nobody, as the route checks before it
  calls \<open>create\<close>, the new user is persisted under a fresh id, with the digest that the
  password hasher returned for the submitted password. What that digest is, and so
  whether it can coincide with the password, is decided inside the hasher, which the
  repository takes from a library.
\<close>

lemma find_None_not_taken:
  "find (\<lambda>r. key r = v) xs = None \<Longrightarrow> \<not> list_ex (\<lambda>r. uid r \<noteq> i \<and> key r = v) xs"
  by (induction xs) (auto split: if_splits)

lemma user_next_id_unused: "user_row db (next_id (map user_id (users db))) = None"
proof -
  have "user_id u \<noteq> next_id (map user_id (users db))" if "u \<in> set (users db)" for u
    using next_id_fresh [of "user_id u" "map user_id (users db)"] that by auto
  then show ?thesis by (auto simp: user_row_def find_None_iff)
qed

lemma user_create_persists:
  assumes e: "get_by_email db (reg_email user_data) = None"
    and n: "get_by_username db (reg_username user_data) = None"
  shows "\<exists>db' u. user_create pwd_hash now db user_data = Inr (db', u)
     \<and> hashed_password u = pwd_hash (reg_password user_data)
     \<and> email u = reg_email user_data
     \<and> username u = reg_username user_data
     \<and> user_row db (user_id u) = None
     \<and> user_row db' (user_id u) = Some u
     \<and> users db' = users db @ [u]
     \<and> tasks db' = tasks db"
proof -
  define u where "u = \<lparr>user_id = next_id (map user_id (users db)),
                     email = reg_email user_data,
                     username = reg_username user_data,
                     hashed_password = pwd_hash (reg_password user_data),
                     full_name = reg_full_name user_data,
                     is_active = Some True,
                     is_superuser = Some False,
                     user_created_at = Some now,
                     user_updated_at = None\<rparr>"
  define db' where "db' = db\<lparr>users := users db @ [u]\<rparr>"
  have id: "user_id u = next_id (map user_id (users db))" by (simp add: u_def)
  have unused: "user_row db (user_id u) = None"
    unfolding id by (rule user_next_id_unused)
  have stored: "user_row db' (user_id u) = Some u"
    using unused by (simp add: db'_def user_row_def find_append_new)
  have free: "\<not> email_taken db (user_id u) (email u)"
    "\<not> username_taken db (user_id u) (username u)"
    using e n unfolding email_taken_def username_taken_def get_by_email_def get_by_username_def
    by (simp_all add: u_def find_None_not_taken)
  have run: "user_create pwd_hash now db user_data = Inr (db', u)"
    using stored free unfolding user_create_def Let_def user_refresh_def
    by (simp add: db'_def u_def)
  have fields: "hashed_password u = pwd_hash (reg_password user_data)
     \<and> email u = reg_email user_data \<and> username u = reg_username user_data"
    by (simp add: u_def)
  have tables: "users db' = users db @ [u] \<and> tasks db' = tasks db"
    by (simp add: db'_def)
  show ?thesis using run fields unused stored tables by blast
qed

text \<open>
  A bcrypt digest in the modular crypt format has 60 characters. For a hasher that
  returns such digests, the stored digest differs from every submitted password of
  another length.
\<close>

lemma user_create_digest_differs:
  assumes e: "get_by_email db (reg_email user_data) = None"
    and n: "get_by_username db (reg_username user_data) = None"
    and digest: "length (pwd_hash (reg_password user_data)) = 60"
    and password: "length (reg_password user_data) \<noteq> 60"
  shows "\<exists>db' u. user_create pwd_hash now db user_data = Inr (db', u)
     \<and> user_row db' (user_id u) = Some u
     \<and> hashed_password u \<noteq> reg_password user_data"
proof -
  from user_create_persists [OF e n, of pwd_hash now] obtain db' u where
    run: "user_create pwd_hash now db user_data = Inr (db', u)"
    and pw: "hashed_password u = pwd_hash (reg_password user_data)"
    and stored: "user_row db' (user_id u) = Some u"
    by blast
  from digest password pw have "hashed_password u \<noteq> reg_password user_data"
    by auto
  with run stored show ?thesis by blast
qed

end
